theory Spec2Isabelle
  imports Complex_Main "HOL-Library.Char_ord" "HOL-Library.List_Lexorder"
begin

text \<open>
  A model of the windowing and feature-extraction engine of prep.py: the silver
  layer (create_silver_features with compute_bandpower, compute_spectral_entropy,
  compute_dfa and extract_window_features) and the two aggregate tables of the
  gold layer (create_gold_layer). Printing, file export and the embedding index
  are left out. Integers and control flow are as in the source; float64 values
  carry their special values, the two products that give the window length and
  the step are rounded as float64 rounds them, the arithmetic on sample values is
  exact, and the numerical routines of SciPy, LAPACK and the SQL engine are
  parameters.
\<close>

section \<open>Python and NumPy primitives used by prep.py\<close>

text \<open>
  Exceptions are values: every function of the pipeline that can raise returns
  \<open>error + 'a\<close>, with \<open>Inl\<close> for the exception.
\<close>

datatype error = ValueError | IndexError | LinAlgError | OverflowError

fun sequence_err :: "(error + 'a) list \<Rightarrow> error + 'a list" where
  "sequence_err [] = Inr []"
| "sequence_err (r # rs) =
     (case r of
        Inl e \<Rightarrow> Inl e
      | Inr v \<Rightarrow> (case sequence_err rs of Inl e \<Rightarrow> Inl e | Inr vs \<Rightarrow> Inr (v # vs)))"

definition map_err :: "('a \<Rightarrow> error + 'b) \<Rightarrow> 'a list \<Rightarrow> error + 'b list" where
  "map_err f xs = sequence_err (map f xs)"

definition bind_err :: "error + 'a \<Rightarrow> ('a \<Rightarrow> error + 'b) \<Rightarrow> error + 'b" where
  "bind_err r f = (case r of Inl e \<Rightarrow> Inl e | Inr v \<Rightarrow> f v)"

text \<open>
  \<open>try: body except: handler\<close> with a bare \<open>except\<close>: whatever the body raises,
  the handler's value is returned.
\<close>

definition try_except :: "error + 'a \<Rightarrow> error + 'a \<Rightarrow> error + 'a" where
  "try_except body handler = (case body of Inl e \<Rightarrow> handler | Inr v \<Rightarrow> Inr v)"

subsection \<open>range and slices\<close>

text \<open>
  \<open>for i in range(start, stop, step)\<close>: the loop as a recursion on the running
  index. A zero step raises ValueError before the first iteration.
\<close>

function range_up :: "int \<Rightarrow> int \<Rightarrow> int \<Rightarrow> int list" where
  "range_up i stop step =
     (if 0 < step \<and> i < stop then i # range_up (i + step) stop step else [])"
  by pat_completeness auto
termination
  by (relation "measure (\<lambda>(i, stop, step). nat (stop - i))") auto

function range_down :: "int \<Rightarrow> int \<Rightarrow> int \<Rightarrow> int list" where
  "range_down i stop step =
     (if step < 0 \<and> stop < i then i # range_down (i + step) stop step else [])"
  by pat_completeness auto
termination
  by (relation "measure (\<lambda>(i, stop, step). nat (i - stop))") auto

declare range_up.simps [simp del] range_down.simps [simp del]

definition py_range :: "int \<Rightarrow> int \<Rightarrow> int \<Rightarrow> error + int list" where
  "py_range start stop step =
     (if step = 0 then Inl ValueError
      else if 0 < step then Inr (range_up start stop step)
      else Inr (range_down start stop step))"

text \<open>
  \<open>xs[a:b]\<close> and \<open>df.iloc[a:b]\<close>: negative bounds count from the end, and bounds
  outside the sequence are clipped.
\<close>

definition slice_bound :: "nat \<Rightarrow> int \<Rightarrow> nat" where
  "slice_bound n i = (if i < 0 then nat (max 0 (i + int n)) else min n (nat i))"

definition py_slice :: "'a list \<Rightarrow> int \<Rightarrow> int \<Rightarrow> 'a list" where
  "py_slice xs a b =
     (let lo = slice_bound (length xs) a; hi = slice_bound (length xs) b
      in take (hi - lo) (drop lo xs))"

text \<open>\<open>s.iloc[0]\<close> and \<open>s.iloc[-1]\<close> raise IndexError on an empty series.\<close>

definition iloc_first :: "'a list \<Rightarrow> error + 'a" where
  "iloc_first xs = (case xs of [] \<Rightarrow> Inl IndexError | x # _ \<Rightarrow> Inr x)"

definition iloc_last :: "'a list \<Rightarrow> error + 'a" where
  "iloc_last xs = (if xs = [] then Inl IndexError else Inr (last xs))"

text \<open>\<open>Series.unique()\<close>: the distinct values in order of first appearance.\<close>

definition unique :: "'a list \<Rightarrow> 'a list" where
  "unique xs = rev (remdups (rev xs))"

text \<open>\<open>int(x)\<close> on a finite float truncates towards zero.\<close>

definition py_int :: "real \<Rightarrow> int" where
  "py_int x = (if 0 \<le> x then \<lfloor>x\<rfloor> else \<lceil>x\<rceil>)"

subsection \<open>float64 rounding\<close>

text \<open>
  Rounding of a real to the nearest float64, ties to the even mantissa: the
  exponent of \<open>x\<close> is \<open>\<lfloor>log2 |x|\<rfloor>\<close>, not below -1022 (the subnormal range), a
  unit in the last place is \<open>2 ^ (exponent - 52)\<close>, and \<open>x\<close> is rounded to a whole
  number of units. A result of magnitude \<open>2 ^ 1024\<close> or more is an overflow: the
  float operation gives an infinity.
\<close>

definition pow2 :: "int \<Rightarrow> real" where
  "pow2 e = (if 0 \<le> e then 2 ^ nat e else 1 / 2 ^ nat (- e))"

definition round_half_even :: "real \<Rightarrow> int" where
  "round_half_even q =
     (let f = \<lfloor>q\<rfloor>
      in if q - of_int f < 1 / 2 then f
         else if 1 / 2 < q - of_int f then f + 1
         else if even f then f else f + 1)"

definition f64_exponent :: "real \<Rightarrow> int" where
  "f64_exponent x = max \<lfloor>log 2 \<bar>x\<bar>\<rfloor> (- 1022)"

definition f64_round :: "real \<Rightarrow> real" where
  "f64_round x =
     (if x = 0 then 0
      else of_int (round_half_even (x / pow2 (f64_exponent x - 52)))
             * pow2 (f64_exponent x - 52))"

definition f64_overflows :: "real \<Rightarrow> bool" where
  "f64_overflows x = (2 ^ 1024 \<le> \<bar>f64_round x\<bar>)"

subsection \<open>float64 values\<close>

text \<open>
  A sample or feature value is a finite float64, an infinity or not-a-number.
  Finite arithmetic on these values is exact here (no rounding, no overflow) and
  the two zeros are one value; the special values propagate as IEEE 754 and
  NumPy prescribe. Division by a zero takes the zero as positive. NumPy array
  arithmetic warns and never raises.
\<close>

datatype npfloat = Fin real | PInf | NInf | NaN

fun fneg :: "npfloat \<Rightarrow> npfloat" where
  "fneg (Fin x) = Fin (- x)"
| "fneg PInf = NInf"
| "fneg NInf = PInf"
| "fneg NaN = NaN"

fun fadd :: "npfloat \<Rightarrow> npfloat \<Rightarrow> npfloat" where
  "fadd (Fin a) (Fin b) = Fin (a + b)"
| "fadd NaN _ = NaN"
| "fadd _ NaN = NaN"
| "fadd PInf NInf = NaN"
| "fadd NInf PInf = NaN"
| "fadd PInf _ = PInf"
| "fadd _ PInf = PInf"
| "fadd NInf _ = NInf"
| "fadd _ NInf = NInf"

definition fsub :: "npfloat \<Rightarrow> npfloat \<Rightarrow> npfloat" where
  "fsub a b = fadd a (fneg b)"

fun fmul :: "npfloat \<Rightarrow> npfloat \<Rightarrow> npfloat" where
  "fmul (Fin a) (Fin b) = Fin (a * b)"
| "fmul NaN _ = NaN"
| "fmul _ NaN = NaN"
| "fmul (Fin a) PInf = (if a = 0 then NaN else if 0 < a then PInf else NInf)"
| "fmul (Fin a) NInf = (if a = 0 then NaN else if 0 < a then NInf else PInf)"
| "fmul PInf (Fin b) = (if b = 0 then NaN else if 0 < b then PInf else NInf)"
| "fmul NInf (Fin b) = (if b = 0 then NaN else if 0 < b then NInf else PInf)"
| "fmul PInf PInf = PInf"
| "fmul NInf NInf = PInf"
| "fmul PInf NInf = NInf"
| "fmul NInf PInf = NInf"

fun fdiv :: "npfloat \<Rightarrow> npfloat \<Rightarrow> npfloat" where
  "fdiv (Fin a) (Fin b) =
     (if b \<noteq> 0 then Fin (a / b)
      else if a = 0 then NaN else if 0 < a then PInf else NInf)"
| "fdiv NaN _ = NaN"
| "fdiv _ NaN = NaN"
| "fdiv (Fin a) _ = Fin 0"
| "fdiv PInf (Fin b) = (if 0 \<le> b then PInf else NInf)"
| "fdiv NInf (Fin b) = (if 0 \<le> b then NInf else PInf)"
| "fdiv _ _ = NaN"

fun flog :: "real \<Rightarrow> npfloat \<Rightarrow> npfloat" where
  "flog base (Fin x) = (if 0 < x then Fin (log base x) else if x = 0 then NInf else NaN)"
| "flog base PInf = PInf"
| "flog base _ = NaN"

fun fsqrt :: "npfloat \<Rightarrow> npfloat" where
  "fsqrt (Fin x) = (if 0 \<le> x then Fin (sqrt x) else NaN)"
| "fsqrt PInf = PInf"
| "fsqrt _ = NaN"

text \<open>Comparisons with not-a-number are false.\<close>

fun flt :: "npfloat \<Rightarrow> npfloat \<Rightarrow> bool" where
  "flt (Fin a) (Fin b) = (a < b)"
| "flt NaN _ = False"
| "flt _ NaN = False"
| "flt _ NInf = False"
| "flt PInf _ = False"
| "flt _ _ = True"

fun fle :: "npfloat \<Rightarrow> npfloat \<Rightarrow> bool" where
  "fle (Fin a) (Fin b) = (a \<le> b)"
| "fle NaN _ = False"
| "fle _ NaN = False"
| "fle NInf _ = True"
| "fle _ PInf = True"
| "fle _ _ = False"

definition fgt :: "npfloat \<Rightarrow> npfloat \<Rightarrow> bool" where
  "fgt a b = flt b a"

definition fge :: "npfloat \<Rightarrow> npfloat \<Rightarrow> bool" where
  "fge a b = fle b a"

text \<open>\<open>np.sum\<close>, \<open>np.mean\<close>, \<open>np.var\<close>, \<open>np.cumsum\<close>, \<open>np.min\<close>, \<open>np.max\<close>.\<close>

definition np_sum :: "npfloat list \<Rightarrow> npfloat" where
  "np_sum xs = foldl fadd (Fin 0) xs"

definition np_mean :: "npfloat list \<Rightarrow> npfloat" where
  "np_mean xs = fdiv (np_sum xs) (Fin (real (length xs)))"

definition np_var :: "npfloat list \<Rightarrow> npfloat" where
  "np_var xs =
     (let m = np_mean xs in np_mean (map (\<lambda>x. fmul (fsub x m) (fsub x m)) xs))"

fun cumsum_from :: "npfloat \<Rightarrow> npfloat list \<Rightarrow> npfloat list" where
  "cumsum_from acc [] = []"
| "cumsum_from acc (x # xs) = fadd acc x # cumsum_from (fadd acc x) xs"

definition np_cumsum :: "npfloat list \<Rightarrow> npfloat list" where
  "np_cumsum xs = (case xs of [] \<Rightarrow> [] | x # rest \<Rightarrow> x # cumsum_from x rest)"

definition fmin2 :: "npfloat \<Rightarrow> npfloat \<Rightarrow> npfloat" where
  "fmin2 a b = (if a = NaN \<or> b = NaN then NaN else if fle a b then a else b)"

definition fmax2 :: "npfloat \<Rightarrow> npfloat \<Rightarrow> npfloat" where
  "fmax2 a b = (if a = NaN \<or> b = NaN then NaN else if fle a b then b else a)"

definition np_min :: "npfloat list \<Rightarrow> error + npfloat" where
  "np_min xs = (case xs of [] \<Rightarrow> Inl ValueError | x # rest \<Rightarrow> Inr (foldl fmin2 x rest))"

definition np_max :: "npfloat list \<Rightarrow> error + npfloat" where
  "np_max xs = (case xs of [] \<Rightarrow> Inl ValueError | x # rest \<Rightarrow> Inr (foldl fmax2 x rest))"

text \<open>
  \<open>np.trapz(y, x)\<close>: the sum of \<open>(x[i+1] - x[i]) * (y[i+1] + y[i]) / 2\<close>; zero
  for fewer than two points.
\<close>

fun trapz_terms :: "npfloat list \<Rightarrow> npfloat list \<Rightarrow> npfloat list" where
  "trapz_terms (y0 # y1 # ys) (x0 # x1 # xs) =
     fdiv (fmul (fsub x1 x0) (fadd y1 y0)) (Fin 2) # trapz_terms (y1 # ys) (x1 # xs)"
| "trapz_terms _ _ = []"

definition np_trapz :: "npfloat list \<Rightarrow> npfloat list \<Rightarrow> npfloat" where
  "np_trapz ys xs = np_sum (trapz_terms ys xs)"


section \<open>Configuration\<close>

text \<open>
  The module-level constants SAMPLING_RATE, WINDOW_SIZE and WINDOW_OVERLAP are the
  fields of a configuration that every function takes; \<open>default_config\<close> holds the
  values of prep.py. The two float constants are held as the decimal numbers of
  their literals; reading a literal rounds it to float64.
\<close>

record config =
  SAMPLING_RATE :: int
  WINDOW_SIZE :: real
  WINDOW_OVERLAP :: real

definition default_config :: config where
  "default_config = \<lparr>SAMPLING_RATE = 250, WINDOW_SIZE = 2, WINDOW_OVERLAP = 1 / 2\<rparr>"

definition EEG_CHANNELS :: "string list" where
  "EEG_CHANNELS =
     [''Fp1'', ''Fp2'', ''F3'', ''F4'', ''F7'', ''F8'',
      ''T3'', ''T4'', ''C3'', ''C4'', ''T5'', ''T6'',
      ''P3'', ''P4'', ''O1'', ''O2'', ''Fz'', ''Cz'', ''Pz'']"

definition BANDS :: "(string \<times> npfloat \<times> npfloat) list" where
  "BANDS =
     [(''delta'', Fin (1 / 2), Fin 4),
      (''theta'', Fin 4, Fin 8),
      (''alpha'', Fin 8, Fin 13),
      (''beta'', Fin 13, Fin 30),
      (''gamma'', Fin 30, Fin 50)]"

definition band :: "string \<Rightarrow> npfloat \<times> npfloat" where
  "band name = (case map_of BANDS name of Some b \<Rightarrow> b | None \<Rightarrow> (NaN, NaN))"

text \<open>
  \<open>window_samples = int(WINDOW_SIZE * SAMPLING_RATE)\<close> and
  \<open>step_samples = int(window_samples * (1 - WINDOW_OVERLAP))\<close>, as
  create_silver_features computes them: the integer operand is converted to
  float64, and the difference and the products are rounded to float64.
\<close>

definition window_samples :: "config \<Rightarrow> int" where
  "window_samples cfg =
     py_int (f64_round (f64_round (WINDOW_SIZE cfg) * f64_round (of_int (SAMPLING_RATE cfg))))"

definition one_minus_overlap :: "config \<Rightarrow> real" where
  "one_minus_overlap cfg = f64_round (1 - f64_round (WINDOW_OVERLAP cfg))"

definition step_samples :: "config \<Rightarrow> int" where
  "step_samples cfg =
     py_int (f64_round (f64_round (of_int (window_samples cfg)) * one_minus_overlap cfg))"

text \<open>
  What the two assignments raise when a float is not finite. Converting an
  integer beyond the float64 range raises OverflowError; \<open>int\<close> of an infinity
  raises OverflowError and \<open>int\<close> of not-a-number (an infinity times zero) raises
  ValueError.
\<close>

definition config_error :: "config \<Rightarrow> error option" where
  "config_error cfg =
     (if f64_overflows (of_int (SAMPLING_RATE cfg)) then Some OverflowError
      else if f64_overflows (WINDOW_SIZE cfg)
        then (if SAMPLING_RATE cfg = 0 then Some ValueError else Some OverflowError)
      else if f64_overflows (f64_round (WINDOW_SIZE cfg) * f64_round (of_int (SAMPLING_RATE cfg)))
        then Some OverflowError
      else if f64_overflows (WINDOW_OVERLAP cfg)
        then (if window_samples cfg = 0 then Some ValueError else Some OverflowError)
      else if f64_overflows (f64_round (of_int (window_samples cfg)) * one_minus_overlap cfg)
        then Some OverflowError
      else None)"

text \<open>
  The window count of the specification: \<open>floor((N - window_samples) / step_samples) + 1\<close>
  when \<open>N \<ge> window_samples\<close>, else 0.
\<close>

definition spec_window_count :: "int \<Rightarrow> int \<Rightarrow> int \<Rightarrow> nat" where
  "spec_window_count ws step N = (if ws \<le> N then nat ((N - ws) div step + 1) else 0)"

section \<open>Library routines taken as parameters\<close>

text \<open>
  The SciPy and LAPACK routines behind prep.py are not part of the repository;
  they are the fields of a record that the model takes as a parameter:
  \<^item> \<open>welch data fs nperseg\<close> is \<open>signal.welch(data, fs, nperseg=nperseg)\<close>, the
    pair of frequencies and power spectral density;
  \<^item> \<open>stats_skew\<close> and \<open>stats_kurtosis\<close> are \<open>skew\<close> and \<open>kurtosis\<close> of
    scipy.stats;
  \<^item> \<open>polyfit x y\<close> is \<open>np.polyfit(x, y, 1)\<close>, the pair of slope and intercept,
    or the exception of the least-squares solver;
  \<^item> \<open>logspace_int a b n\<close> is \<open>np.logspace(a, b, n).astype(int)\<close>, whose
    truncated values depend on the rounding of float64 powers.
\<close>

record numlib =
  welch :: "npfloat list \<Rightarrow> int \<Rightarrow> nat \<Rightarrow> error + (npfloat list \<times> npfloat list)"
  stats_skew :: "npfloat list \<Rightarrow> npfloat"
  stats_kurtosis :: "npfloat list \<Rightarrow> npfloat"
  polyfit :: "npfloat list \<Rightarrow> npfloat list \<Rightarrow> error + (npfloat \<times> npfloat)"
  logspace_int :: "npfloat \<Rightarrow> npfloat \<Rightarrow> nat \<Rightarrow> int list"

section \<open>Silver layer: feature extraction\<close>

subsection \<open>compute_bandpower and compute_spectral_entropy\<close>

definition compute_bandpower ::
  "numlib \<Rightarrow> npfloat list \<Rightarrow> int \<Rightarrow> npfloat \<times> npfloat \<Rightarrow> error + npfloat" where
  "compute_bandpower lib data fs bnd =
     bind_err (welch lib data fs (min 256 (length data))) (\<lambda>(freqs, psd).
       if length freqs \<noteq> length psd then Inl IndexError
       else
         let idx_band = filter (\<lambda>(f, p). fge f (fst bnd) \<and> fle f (snd bnd)) (zip freqs psd)
         in Inr (np_trapz (map snd idx_band) (map fst idx_band)))"

text \<open>The three lines of compute_spectral_entropy after the call of welch.\<close>

definition spectral_entropy_of_psd :: "npfloat list \<Rightarrow> npfloat" where
  "spectral_entropy_of_psd psd =
     (let psd_sum = np_sum psd;
          psd_norm = map (\<lambda>p. fdiv p psd_sum) psd;
          psd_norm = filter (\<lambda>p. fgt p (Fin 0)) psd_norm
      in fneg (np_sum (map (\<lambda>p. fmul p (flog 2 p)) psd_norm)))"

definition compute_spectral_entropy :: "numlib \<Rightarrow> npfloat list \<Rightarrow> int \<Rightarrow> error + npfloat" where
  "compute_spectral_entropy lib data fs =
     bind_err (welch lib data fs (min 256 (length data))) (\<lambda>(freqs, psd).
       Inr (spectral_entropy_of_psd psd))"

subsection \<open>compute_dfa\<close>

text \<open>\<open>np.arange(n)\<close> as floats, and \<open>np.polyval([p1, p0], x)\<close>.\<close>

definition np_arange :: "nat \<Rightarrow> npfloat list" where
  "np_arange n = map (\<lambda>i. Fin (real i)) [0..<n]"

definition np_polyval :: "npfloat \<times> npfloat \<Rightarrow> npfloat list \<Rightarrow> npfloat list" where
  "np_polyval fit xs = map (\<lambda>x. fadd (fmul (fst fit) x) (snd fit)) xs"

text \<open>
  The body of the inner loop for one segment: the linear fit, the trend, and the
  root of the mean squared residual.
\<close>

definition dfa_segment_rms :: "numlib \<Rightarrow> npfloat list \<Rightarrow> error + npfloat" where
  "dfa_segment_rms lib segment =
     (let x = np_arange (length segment)
      in bind_err (polyfit lib x segment) (\<lambda>fit.
           let trend = np_polyval fit x
           in Inr (fsqrt (np_mean
                 (map (\<lambda>(s, t). fmul (fsub s t) (fsub s t)) (zip segment trend))))))"

text \<open>
  The segments the inner loop visits for one scale: \<open>y[i*scale:(i+1)*scale]\<close> for
  \<open>i\<close> in \<open>range(N // scale)\<close>, without those of fewer than two samples.
\<close>

definition dfa_segments :: "int \<Rightarrow> npfloat list \<Rightarrow> int \<Rightarrow> npfloat list list" where
  "dfa_segments N y scale =
     filter (\<lambda>segment. \<not> length segment < 2)
       (map (\<lambda>i. py_slice y (int i * scale) ((int i + 1) * scale))
            [0..<nat (N div scale)])"

text \<open>
  One round of the loop over the scales: nothing is appended for a scale with no
  segment, otherwise the mean of the segments' values.
\<close>

definition dfa_scale_fluct ::
  "numlib \<Rightarrow> int \<Rightarrow> npfloat list \<Rightarrow> int \<Rightarrow> error + npfloat option" where
  "dfa_scale_fluct lib N y scale =
     (if N div scale < 1 then Inr None
      else bind_err (map_err (dfa_segment_rms lib) (dfa_segments N y scale)) (\<lambda>F.
             Inr (if F = [] then None else Some (np_mean F))))"

definition dfa_scales :: "numlib \<Rightarrow> int \<Rightarrow> int list" where
  "dfa_scales lib N = logspace_int lib (Fin 1) (flog 10 (Fin (of_int (N div 4)))) 8"

text \<open>The profile: \<open>y = np.cumsum(data - np.mean(data))\<close>.\<close>

definition dfa_profile :: "npfloat list \<Rightarrow> npfloat list" where
  "dfa_profile data = np_cumsum (map (\<lambda>x. fsub x (np_mean data)) data)"

text \<open>The list \<open>flucts\<close> when the loop over the scales has ended.\<close>

definition dfa_flucts :: "numlib \<Rightarrow> npfloat list \<Rightarrow> error + npfloat list" where
  "dfa_flucts lib data =
     (let N = int (length data)
      in bind_err (map_err (dfa_scale_fluct lib N (dfa_profile data)) (dfa_scales lib N))
           (\<lambda>appended. Inr (List.map_filter id appended)))"

text \<open>
  The power-law fit: \<open>np.polyfit(np.log10(scales[:len(flucts)]), np.log10(flucts), 1)[0]\<close>.
\<close>

definition dfa_log_scales :: "numlib \<Rightarrow> npfloat list \<Rightarrow> npfloat list \<Rightarrow> npfloat list" where
  "dfa_log_scales lib data flucts =
     map (\<lambda>s. flog 10 (Fin (of_int s)))
       (take (length flucts) (dfa_scales lib (int (length data))))"

definition dfa_alpha_fit :: "numlib \<Rightarrow> npfloat list \<Rightarrow> npfloat list \<Rightarrow> error + npfloat" where
  "dfa_alpha_fit lib data flucts =
     bind_err (polyfit lib (dfa_log_scales lib data flucts) (map (flog 10) flucts))
       (\<lambda>fit. Inr (fst fit))"

text \<open>The statements inside \<open>try\<close>.\<close>

definition compute_dfa_body :: "numlib \<Rightarrow> npfloat list \<Rightarrow> error + npfloat" where
  "compute_dfa_body lib data =
     (if int (length data) < 16 then Inr (Fin 0)
      else bind_err (dfa_flucts lib data) (\<lambda>flucts.
             if length flucts < 2 then Inr (Fin 0)
             else dfa_alpha_fit lib data flucts))"

definition compute_dfa :: "numlib \<Rightarrow> npfloat list \<Rightarrow> error + npfloat" where
  "compute_dfa lib data = try_except (compute_dfa_body lib data) (Inr (Fin 0))"

subsection \<open>extract_window_features\<close>

record features =
  channel :: string
  mean_val :: npfloat
  var_val :: npfloat
  min_val :: npfloat
  max_val :: npfloat
  skewness :: npfloat
  kurtosis :: npfloat
  energy :: npfloat
  delta_power :: npfloat
  theta_power :: npfloat
  alpha_power :: npfloat
  beta_power :: npfloat
  gamma_power :: npfloat
  spectral_entropy :: npfloat
  dfa_alpha :: npfloat

definition extract_window_features ::
  "numlib \<Rightarrow> npfloat list \<Rightarrow> string \<Rightarrow> int \<Rightarrow> error + features" where
  "extract_window_features lib window_data chan fs =
     bind_err (np_min window_data) (\<lambda>mn.
     bind_err (np_max window_data) (\<lambda>mx.
     bind_err (compute_bandpower lib window_data fs (band ''delta'')) (\<lambda>delta.
     bind_err (compute_bandpower lib window_data fs (band ''theta'')) (\<lambda>theta.
     bind_err (compute_bandpower lib window_data fs (band ''alpha'')) (\<lambda>alpha.
     bind_err (compute_bandpower lib window_data fs (band ''beta'')) (\<lambda>beta.
     bind_err (compute_bandpower lib window_data fs (band ''gamma'')) (\<lambda>gamma.
     bind_err (compute_spectral_entropy lib window_data fs) (\<lambda>entropy.
     bind_err (compute_dfa lib window_data) (\<lambda>dfa.
       Inr \<lparr>channel = chan,
            mean_val = np_mean window_data,
            var_val = np_var window_data,
            min_val = mn,
            max_val = mx,
            skewness = stats_skew lib window_data,
            kurtosis = stats_kurtosis lib window_data,
            energy = np_sum (map (\<lambda>x. fmul x x) window_data),
            delta_power = delta,
            theta_power = theta,
            alpha_power = alpha,
            beta_power = beta,
            gamma_power = gamma,
            spectral_entropy = entropy,
            dfa_alpha = dfa\<rparr>)))))))))"

subsection \<open>create_silver_features\<close>

text \<open>
  The bronze table: its channel columns, and its rows, each with the cells of the
  channel columns and the columns subject, sample_idx and time_sec. A cell that
  the table does not hold reads as not-a-number.
\<close>

record raw_row =
  row_cells :: "(string \<times> npfloat) list"
  row_subject :: string
  sample_idx :: nat
  time_sec :: npfloat

record raw_df =
  df_columns :: "string list"
  df_rows :: "raw_row list"

definition cell :: "raw_row \<Rightarrow> string \<Rightarrow> npfloat" where
  "cell r chan = (case map_of (row_cells r) chan of Some v \<Rightarrow> v | None \<Rightarrow> NaN)"

definition channel_data :: "raw_row list \<Rightarrow> string \<Rightarrow> npfloat list" where
  "channel_data window_slice chan = map (\<lambda>r. cell r chan) window_slice"

record FeatureRow = features +
  subject :: string
  window_idx :: nat
  window_start :: npfloat
  window_end :: npfloat

text \<open>\<open>subject_data.iloc[start_idx:end_idx]\<close> with \<open>end_idx = start_idx + window_samples\<close>.\<close>

definition window_slice :: "config \<Rightarrow> raw_row list \<Rightarrow> int \<Rightarrow> raw_row list" where
  "window_slice cfg subj_data start_idx =
     py_slice subj_data start_idx (start_idx + window_samples cfg)"

text \<open>
  The channels for which the inner loop appends a row: those of EEG_CHANNELS that
  are columns of the table and whose values in the slice are not fewer than 10.
\<close>

definition kept_channels :: "raw_df \<Rightarrow> raw_row list \<Rightarrow> string list" where
  "kept_channels df slice =
     filter (\<lambda>chan. chan \<in> set (df_columns df) \<and> \<not> length (channel_data slice chan) < 10)
       EEG_CHANNELS"

text \<open>One round of the loop over the windows of a subject.\<close>

definition window_features ::
  "config \<Rightarrow> numlib \<Rightarrow> raw_df \<Rightarrow> string \<Rightarrow> raw_row list \<Rightarrow> nat \<times> int
     \<Rightarrow> error + FeatureRow list" where
  "window_features cfg lib df subj subj_data w =
     (let window_count = fst w;
          start_idx = snd w;
          slice = window_slice cfg subj_data start_idx
      in bind_err (iloc_first (map time_sec slice)) (\<lambda>w_start.
         bind_err (iloc_last (map time_sec slice)) (\<lambda>w_end.
           map_err
             (\<lambda>chan.
                bind_err (extract_window_features lib (channel_data slice chan) chan
                            (SAMPLING_RATE cfg)) (\<lambda>f.
                  Inr (features.extend f
                         (FeatureRow.fields subj window_count w_start w_end))))
             (kept_channels df slice))))"

text \<open>The window start indices of a recording of \<open>n_samples\<close> samples.\<close>

definition window_starts :: "config \<Rightarrow> int \<Rightarrow> error + int list" where
  "window_starts cfg n_samples =
     py_range 0 (n_samples - window_samples cfg + 1) (step_samples cfg)"

text \<open>\<open>raw_df[raw_df['subject'] == subject]\<close> and its length.\<close>

definition subject_data :: "raw_df \<Rightarrow> string \<Rightarrow> raw_row list" where
  "subject_data df subj = filter (\<lambda>r. row_subject r = subj) (df_rows df)"

definition n_samples :: "raw_df \<Rightarrow> string \<Rightarrow> int" where
  "n_samples df subj = int (length (subject_data df subj))"

text \<open>One round of the loop over the subjects.\<close>

definition subject_features ::
  "config \<Rightarrow> numlib \<Rightarrow> raw_df \<Rightarrow> string \<Rightarrow> error + FeatureRow list" where
  "subject_features cfg lib df subj =
     bind_err (window_starts cfg (n_samples df subj)) (\<lambda>starts.
     bind_err (map_err (window_features cfg lib df subj (subject_data df subj))
                 (enumerate 0 starts)) (\<lambda>rows.
       Inr (concat rows)))"

text \<open>
  The two assignments and the loop over the subjects, up to the list
  \<open>all_features\<close>. Turning the list into a data frame and storing it in the
  engine are left out.
\<close>

definition create_silver_features :: "config \<Rightarrow> numlib \<Rightarrow> raw_df \<Rightarrow> error + FeatureRow list" where
  "create_silver_features cfg lib df =
     (case config_error cfg of
        Some e \<Rightarrow> Inl e
      | None \<Rightarrow>
          let subjects = unique (map row_subject (df_rows df))
          in bind_err (map_err (subject_features cfg lib df) subjects) (\<lambda>all_features.
               Inr (concat all_features)))"


text \<open>
  What load_raw_eeg_data writes into the two derived columns: within each
  subject \<open>sample_idx\<close> counts the rows from 0, and \<open>time_sec\<close> is
  \<open>sample_idx / SAMPLING_RATE\<close>.
\<close>

definition bronze_layout :: "config \<Rightarrow> raw_df \<Rightarrow> bool" where
  "bronze_layout cfg df =
     ((\<forall>subj\<in>set (map row_subject (df_rows df)).
         map sample_idx (subject_data df subj) = [0..<length (subject_data df subj)]) \<and>
      (\<forall>r\<in>set (df_rows df).
         time_sec r = fdiv (Fin (real (sample_idx r))) (Fin (of_int (SAMPLING_RATE cfg)))))"

text \<open>
  The spectral estimate of a segment exists: \<open>welch\<close> returns, with as many
  frequencies as density values.
\<close>

definition welch_returns :: "numlib \<Rightarrow> npfloat list \<Rightarrow> int \<Rightarrow> bool" where
  "welch_returns lib data fs =
     (case welch lib data fs (min 256 (length data)) of
        Inl e \<Rightarrow> False
      | Inr r \<Rightarrow> length (fst r) = length (snd r))"

section \<open>Gold layer: the two aggregate tables\<close>

text \<open>
  The aggregates run inside the SQL engine. Its floating-point aggregates and
  the order it gives to two doubles are parameters: \<open>sql_avg\<close> and \<open>sql_stddev\<close>
  take the values of a column within a group and return a nullable double,
  \<open>sql_desc_before a b\<close> says that \<open>a\<close> is placed before \<open>b\<close> by ORDER BY ... DESC.
\<close>

record sql_engine =
  sql_avg :: "npfloat list \<Rightarrow> npfloat option"
  sql_stddev :: "npfloat list \<Rightarrow> npfloat option"
  sql_desc_before :: "npfloat option \<Rightarrow> npfloat option \<Rightarrow> bool"

record workload_stats =
  gw_channel :: string
  gw_avg_mean :: "npfloat option"
  gw_avg_variance :: "npfloat option"
  gw_avg_alpha :: "npfloat option"
  gw_avg_beta :: "npfloat option"
  gw_avg_theta :: "npfloat option"
  gw_avg_delta :: "npfloat option"
  gw_avg_gamma :: "npfloat option"
  gw_avg_spectral_entropy :: "npfloat option"
  gw_avg_dfa :: "npfloat option"
  gw_std_alpha :: "npfloat option"
  gw_std_beta :: "npfloat option"
  gw_n_windows :: nat

record subject_stats =
  gs_subject :: string
  gs_n_windows :: nat
  gs_avg_alpha :: "npfloat option"
  gs_avg_beta :: "npfloat option"
  gs_avg_theta :: "npfloat option"
  gs_avg_dfa :: "npfloat option"
  gs_avg_entropy :: "npfloat option"

text \<open>GROUP BY: one group per distinct key, holding the rows with that key.\<close>

definition group_by :: "('r \<Rightarrow> 'k) \<Rightarrow> 'r list \<Rightarrow> ('k \<times> 'r list) list" where
  "group_by key rows =
     map (\<lambda>k. (k, filter (\<lambda>r. key r = k) rows)) (unique (map key rows))"

text \<open>ORDER BY with the engine's order: insertion of each row behind those placed before it.\<close>

fun insert_by :: "('r \<Rightarrow> 'r \<Rightarrow> bool) \<Rightarrow> 'r \<Rightarrow> 'r list \<Rightarrow> 'r list" where
  "insert_by before x [] = [x]"
| "insert_by before x (y # ys) =
     (if before y x then y # insert_by before x ys else x # y # ys)"

definition order_by :: "('r \<Rightarrow> 'r \<Rightarrow> bool) \<Rightarrow> 'r list \<Rightarrow> 'r list" where
  "order_by before rows = foldr (insert_by before) rows []"

text \<open>The SELECT list of gold_workload_stats for the group \<open>g\<close> of channel \<open>k\<close>.\<close>

definition workload_row :: "sql_engine \<Rightarrow> string \<Rightarrow> FeatureRow list \<Rightarrow> workload_stats" where
  "workload_row eng k g =
     \<lparr>gw_channel = k,
      gw_avg_mean = sql_avg eng (map mean_val g),
      gw_avg_variance = sql_avg eng (map var_val g),
      gw_avg_alpha = sql_avg eng (map alpha_power g),
      gw_avg_beta = sql_avg eng (map beta_power g),
      gw_avg_theta = sql_avg eng (map theta_power g),
      gw_avg_delta = sql_avg eng (map delta_power g),
      gw_avg_gamma = sql_avg eng (map gamma_power g),
      gw_avg_spectral_entropy = sql_avg eng (map spectral_entropy g),
      gw_avg_dfa = sql_avg eng (map dfa_alpha g),
      gw_std_alpha = sql_stddev eng (map alpha_power g),
      gw_std_beta = sql_stddev eng (map beta_power g),
      gw_n_windows = length g\<rparr>"

definition gold_workload_stats :: "sql_engine \<Rightarrow> FeatureRow list \<Rightarrow> workload_stats list" where
  "gold_workload_stats eng silver =
     order_by (\<lambda>a b. sql_desc_before eng (gw_avg_beta a) (gw_avg_beta b))
       (map (\<lambda>(k, g). workload_row eng k g) (group_by channel silver))"

text \<open>
  The SELECT list of gold_subject_stats for the group \<open>g\<close> of subject \<open>k\<close>;
  \<open>n_windows\<close> is COUNT(DISTINCT window_idx).
\<close>

definition subject_row :: "sql_engine \<Rightarrow> string \<Rightarrow> FeatureRow list \<Rightarrow> subject_stats" where
  "subject_row eng k g =
     \<lparr>gs_subject = k,
      gs_n_windows = length (remdups (map window_idx g)),
      gs_avg_alpha = sql_avg eng (map alpha_power g),
      gs_avg_beta = sql_avg eng (map beta_power g),
      gs_avg_theta = sql_avg eng (map theta_power g),
      gs_avg_dfa = sql_avg eng (map dfa_alpha g),
      gs_avg_entropy = sql_avg eng (map spectral_entropy g)\<rparr>"

definition gold_subject_stats :: "sql_engine \<Rightarrow> FeatureRow list \<Rightarrow> subject_stats list" where
  "gold_subject_stats eng silver =
     sort_key gs_subject
       (map (\<lambda>(k, g). subject_row eng k g) (group_by subject silver))"


section \<open>Concrete inputs\<close>

text \<open>
  A library whose spectral estimate is flat zero and whose least-squares solver
  always fails, one whose solver always returns slope one, a recording of a zero
  signal as the bronze layer lays it out, a feature row of zeros, an engine
  that averages exactly, and a configuration with windows of 10 samples together
  with a table of one subject, two channels and 10 samples.
\<close>

definition failing_fit_lib :: numlib where
  "failing_fit_lib =
     \<lparr>welch = (\<lambda>data fs nperseg. Inr ([Fin 0], [Fin 0])),
      stats_skew = (\<lambda>data. Fin 0),
      stats_kurtosis = (\<lambda>data. Fin 0),
      polyfit = (\<lambda>x y. Inl LinAlgError),
      logspace_int = (\<lambda>a b n. replicate n 10)\<rparr>"

definition unit_slope_lib :: numlib where
  "unit_slope_lib = failing_fit_lib\<lparr>polyfit := (\<lambda>x y. Inr (Fin 1, Fin 0))\<rparr>"

definition flat_recording :: "int \<Rightarrow> string \<Rightarrow> string list \<Rightarrow> nat \<Rightarrow> raw_row list" where
  "flat_recording fs subj chans n =
     map (\<lambda>i. \<lparr>row_cells = map (\<lambda>c. (c, Fin 0)) chans, row_subject = subj,
                sample_idx = i, time_sec = fdiv (Fin (real i)) (Fin (of_int fs))\<rparr>) [0..<n]"

definition flat_row :: "string \<Rightarrow> string \<Rightarrow> nat \<Rightarrow> FeatureRow" where
  "flat_row subj chan idx =
     features.extend
       \<lparr>channel = chan, mean_val = Fin 0, var_val = Fin 0, min_val = Fin 0,
        max_val = Fin 0, skewness = Fin 0, kurtosis = Fin 0, energy = Fin 0,
        delta_power = Fin 0, theta_power = Fin 0, alpha_power = Fin 0,
        beta_power = Fin 0, gamma_power = Fin 0, spectral_entropy = Fin 0,
        dfa_alpha = Fin 0\<rparr>
       (FeatureRow.fields subj idx (Fin 0) (Fin (499 / 250)))"

definition exact_engine :: sql_engine where
  "exact_engine =
     \<lparr>sql_avg = (\<lambda>xs. if xs = [] then None else Some (np_mean xs)),
      sql_stddev = (\<lambda>xs. if length xs < 2 then None else Some (fsqrt (np_var xs))),
      sql_desc_before = (\<lambda>a b. case (a, b) of
                           (Some x, Some y) \<Rightarrow> fle y x
                         | (Some x, None) \<Rightarrow> True
                         | (None, _) \<Rightarrow> False)\<rparr>"

definition small_config :: config where
  "small_config = \<lparr>SAMPLING_RATE = 10, WINDOW_SIZE = 1, WINDOW_OVERLAP = 1 / 2\<rparr>"

definition small_df :: raw_df where
  "small_df = \<lparr>df_columns = [''Fp1'', ''Fp2''],
               df_rows = flat_recording 10 ''s00'' [''Fp1'', ''Fp2''] 10\<rparr>"

section \<open>Error propagation\<close>

lemma bind_err_Inr [simp]: "bind_err (Inr v) f = f v"
  by (simp add: bind_err_def)

lemma bind_err_Inl [simp]: "bind_err (Inl e) f = Inl e"
  by (simp add: bind_err_def)

lemma try_except_Inr [simp]: "try_except (Inr v) h = Inr v"
  by (simp add: try_except_def)

lemma try_except_Inl [simp]: "try_except (Inl e) h = h"
  by (simp add: try_except_def)

lemma sequence_err_length: "sequence_err rs = Inr vs \<Longrightarrow> length vs = length rs"
  by (induction rs arbitrary: vs) (auto split: sum.splits)

lemma map_err_length: "map_err f xs = Inr ys \<Longrightarrow> length ys = length xs"
  by (auto simp: map_err_def dest: sequence_err_length)

lemma map_err_Nil [simp]: "map_err f [] = Inr []"
  by (simp add: map_err_def)

lemma map_err_Cons:
  "map_err f (x # xs) =
     (case f x of Inl e \<Rightarrow> Inl e
      | Inr v \<Rightarrow> (case map_err f xs of Inl e \<Rightarrow> Inl e | Inr vs \<Rightarrow> Inr (v # vs)))"
  unfolding map_err_def by simp

lemma map_err_replicate_Inr: "f x = Inr v \<Longrightarrow> map_err f (replicate n x) = Inr (replicate n v)"
  by (induction n) (simp_all add: map_err_Cons)

lemma map_err_replicate_Inl: "f x = Inl e \<Longrightarrow> map_err f (replicate (Suc n) x) = Inl e"
  by (simp add: map_err_Cons)

section \<open>Rounding to float64\<close>

lemma pow2_pos [simp]: "0 < pow2 e"
  by (simp add: pow2_def)

lemma pow2_powr: "pow2 e = 2 powr (of_int e)"
proof (cases "0 \<le> e")
  case True
  then have "2 powr (of_int e) = (2::real) powr (real (nat e))" by simp
  also have "\<dots> = 2 ^ nat e" by (simp add: powr_realpow)
  finally show ?thesis using True by (simp add: pow2_def)
next
  case False
  then have "(2::real) powr (of_int e) = 2 powr (- real (nat (- e)))" by simp
  also have "\<dots> = 1 / 2 ^ nat (- e)" by (simp add: powr_minus powr_realpow divide_inverse)
  finally show ?thesis using False by (simp add: pow2_def)
qed

lemma round_half_even_nonneg: "0 \<le> q \<Longrightarrow> 0 \<le> round_half_even q"
  by (simp add: round_half_even_def Let_def)

lemma round_half_even_le: "q \<le> of_int n \<Longrightarrow> round_half_even q \<le> n"
proof -
  assume a: "q \<le> of_int n"
  have f: "\<lfloor>q\<rfloor> \<le> n" using a by (simp add: floor_le_iff)
  show ?thesis
  proof (cases "\<lfloor>q\<rfloor> = n")
    case True
    then have "q - of_int \<lfloor>q\<rfloor> \<le> 0" using a by simp
    then show ?thesis using True by (simp add: round_half_even_def Let_def)
  next
    case False
    then have "\<lfloor>q\<rfloor> + 1 \<le> n" using f by simp
    then show ?thesis using f by (simp add: round_half_even_def Let_def)
  qed
qed

lemma round_half_even_near:
  assumes "\<bar>q - of_int n\<bar> < 1 / 2"
  shows "round_half_even q = n"
proof -
  have up: "q - of_int n < 1 / 2" and dn: "of_int n - q < 1 / 2"
    using assms by linarith+
  show ?thesis
  proof (cases "of_int n \<le> q")
    case True
    have "q < of_int n + 1" using up by linarith
    with True have "\<lfloor>q\<rfloor> = n" by (rule floor_unique)
    then show ?thesis using up by (simp add: round_half_even_def Let_def)
  next
    case False
    have e: "(of_int (n - 1) :: real) = of_int n - 1" by simp
    have lo: "of_int (n - 1) \<le> q" unfolding e using dn by linarith
    have hi: "q < of_int (n - 1) + 1" unfolding e using False by linarith
    have fl: "\<lfloor>q\<rfloor> = n - 1" using lo hi by (rule floor_unique)
    have "1 / 2 < q - of_int (n - 1)" unfolding e using dn by linarith
    then show ?thesis using fl by (simp add: round_half_even_def Let_def)
  qed
qed

lemma f64_exponent_eq:
  assumes "pow2 k \<le> \<bar>x\<bar>" and "\<bar>x\<bar> < pow2 (k + 1)" and "- 1022 \<le> k"
  shows "f64_exponent x = k"
proof -
  have pos: "0 < \<bar>x\<bar>" using assms(1) pow2_pos [of k] by linarith
  have "\<lfloor>log 2 \<bar>x\<bar>\<rfloor> = k"
    using assms(1,2) pos by (simp add: floor_log_eq_powr_iff pow2_powr add.commute)
  then show ?thesis using assms(3) by (simp add: f64_exponent_def)
qed

lemma f64_round_near:
  assumes "pow2 k \<le> \<bar>x\<bar>" and "\<bar>x\<bar> < pow2 (k + 1)" and "- 1022 \<le> k"
    and "\<bar>x / pow2 (k - 52) - of_int n\<bar> < 1 / 2"
  shows "f64_round x = of_int n * pow2 (k - 52)"
proof -
  have "0 < \<bar>x\<bar>" using pow2_pos assms(1) by (rule less_le_trans)
  then have "x \<noteq> 0" by auto
  then show ?thesis
    using f64_exponent_eq [OF assms(1-3)] round_half_even_near [OF assms(4)]
    by (simp add: f64_round_def)
qed

lemma f64_round_nonneg:
  assumes "0 \<le> x"
  shows "0 \<le> f64_round x"
proof -
  have "0 \<le> x / pow2 (f64_exponent x - 52)"
    using assms by (intro divide_nonneg_pos) simp_all
  then have "0 \<le> round_half_even (x / pow2 (f64_exponent x - 52))"
    by (rule round_half_even_nonneg)
  then have "0 \<le> of_int (round_half_even (x / pow2 (f64_exponent x - 52)))
               * pow2 (f64_exponent x - 52)"
    by (intro mult_nonneg_nonneg) (simp_all add: less_imp_le)
  then show ?thesis by (simp add: f64_round_def)
qed

lemma f64_round_le_one:
  assumes "x \<le> 1"
  shows "f64_round x \<le> 1"
proof (cases "x \<le> 0")
  case True
  then have "x / pow2 (f64_exponent x - 52) \<le> of_int 0"
    by (simp add: divide_nonpos_pos)
  then have "round_half_even (x / pow2 (f64_exponent x - 52)) \<le> 0"
    by (rule round_half_even_le)
  then have "of_int (round_half_even (x / pow2 (f64_exponent x - 52)))
               * pow2 (f64_exponent x - 52) \<le> 0"
    by (intro mult_nonpos_nonneg) (simp_all add: less_imp_le)
  then show ?thesis by (simp add: f64_round_def)
next
  case False
  then have pos: "0 < x" by simp
  have "log 2 \<bar>x\<bar> \<le> 0" using pos assms by simp
  then have "\<lfloor>log 2 \<bar>x\<bar>\<rfloor> \<le> 0" by (simp add: floor_le_iff) 
  then have e: "f64_exponent x - 52 < 0" by (simp add: f64_exponent_def)
  let ?u = "pow2 (f64_exponent x - 52)"
  let ?N = "2 ^ nat (- (f64_exponent x - 52)) :: int"
  have u: "?u = 1 / of_int ?N" using e by (simp add: pow2_def)
  have "x / ?u \<le> of_int ?N" using assms u by simp
  then have "round_half_even (x / ?u) \<le> ?N" by (rule round_half_even_le)
  then have "of_int (round_half_even (x / ?u)) \<le> (of_int ?N :: real)" by (simp only: of_int_le_iff)
  then have "of_int (round_half_even (x / ?u)) * ?u \<le> of_int ?N * ?u"
    by (rule mult_right_mono) (simp add: less_imp_le)
  also have "of_int ?N * ?u = 1" unfolding u by simp
  finally show ?thesis using pos by (simp add: f64_round_def)
qed

lemma f64_round_one: "f64_round 1 = 1"
  using f64_round_near [of 0 1 "2 ^ 52"] by (simp add: pow2_def)

lemma f64_round_two: "f64_round 2 = 2"
  using f64_round_near [of 1 2 "2 ^ 52"] by (simp add: pow2_def)

lemma f64_round_five: "f64_round 5 = 5"
  using f64_round_near [of 2 5 "5 * 2 ^ 50"] by (simp add: pow2_def)

lemma f64_round_nine: "f64_round 9 = 9"
  using f64_round_near [of 3 9 "9 * 2 ^ 49"] by (simp add: pow2_def)

lemma f64_round_ten: "f64_round 10 = 10"
  using f64_round_near [of 3 10 "10 * 2 ^ 49"] by (simp add: pow2_def)

lemma f64_round_250: "f64_round 250 = 250"
  using f64_round_near [of 7 250 "250 * 2 ^ 45"] by (simp add: pow2_def)

lemma f64_round_500: "f64_round 500 = 500"
  using f64_round_near [of 8 500 "500 * 2 ^ 44"] by (simp add: pow2_def)

lemma f64_round_half: "f64_round (1 / 2) = 1 / 2"
  using f64_round_near [of "- 1" "1 / 2" "2 ^ 52"] by (simp add: pow2_def)

lemmas f64_small = f64_round_one f64_round_two f64_round_five f64_round_nine f64_round_ten
  f64_round_250 f64_round_500 f64_round_half

text \<open>The literals 0.999 and 0.9 as float64, and what prep.py computes from them.\<close>

lemma f64_round_999: "f64_round (999 / 1000) = 8998192055486251 / 2 ^ 53"
  using f64_round_near [of "- 1" "999 / 1000" 8998192055486251] by (simp add: pow2_def)

lemma f64_round_1_minus_999:
  "f64_round (1 - 8998192055486251 / 2 ^ 53) = 9007199254741 / 2 ^ 53"
  using f64_round_near [of "- 10" "1 - 8998192055486251 / 2 ^ 53" 4611686018427392]
  by (simp add: pow2_def)

lemma f64_round_500_times:
  "f64_round (500 * (9007199254741 / 2 ^ 53)) = 4503599627370500 / 2 ^ 53"
  using f64_round_near [of "- 1" "500 * (9007199254741 / 2 ^ 53)" 4503599627370500]
  by (simp add: pow2_def)

lemma f64_round_9_10: "f64_round (9 / 10) = 8106479329266893 / 2 ^ 53"
  using f64_round_near [of "- 1" "9 / 10" 8106479329266893] by (simp add: pow2_def)

lemma f64_round_1_minus_9_10:
  "f64_round (1 - 8106479329266893 / 2 ^ 53) = 900719925474099 / 2 ^ 53"
  using f64_round_near [of "- 4" "1 - 8106479329266893 / 2 ^ 53" 7205759403792792]
  by (simp add: pow2_def)

lemma f64_round_10_times:
  "f64_round (10 * (900719925474099 / 2 ^ 53)) = 9007199254740990 / 2 ^ 53"
  using f64_round_near [of "- 1" "10 * (900719925474099 / 2 ^ 53)" 9007199254740990]
  by (simp add: pow2_def)

section \<open>Window enumeration\<close>

lemma range_up_Nil: "stop \<le> i \<Longrightarrow> range_up i stop step = []"
  by (subst range_up.simps) simp

lemma range_up_length:
  "0 < step \<Longrightarrow>
   int (length (range_up i stop step)) = (if i < stop then (stop - i - 1) div step + 1 else 0)"
proof (induction i stop step rule: range_up.induct)
  case (1 i stop step)
  show ?case
  proof (cases "i < stop")
    case False
    then show ?thesis by (simp add: range_up_Nil)
  next
    case True
    have unf: "range_up i stop step = i # range_up (i + step) stop step"
      using True "1.prems" by (subst range_up.simps) simp
    have ih: "int (length (range_up (i + step) stop step)) =
        (if i + step < stop then (stop - (i + step) - 1) div step + 1 else 0)"
      using "1.IH" True "1.prems" by simp
    show ?thesis
    proof (cases "i + step < stop")
      case True
      define k where "k = stop - (i + step) - 1"
      have e: "stop - i - 1 = k + step" by (simp add: k_def)
      have "(k + step) div step = k div step + 1"
        using "1.prems" by simp
      then have "(stop - i - 1) div step = (stop - (i + step) - 1) div step + 1"
        unfolding e by (simp add: k_def)
      then show ?thesis using unf ih True \<open>i < stop\<close> by simp
    next
      case False
      then have "(stop - i - 1) div step = 0" using \<open>i < stop\<close> "1.prems" by simp
      then show ?thesis using unf ih False \<open>i < stop\<close> by simp
    qed
  qed
qed

lemma ws_default: "window_samples default_config = 500"
  by (simp add: window_samples_def default_config_def f64_small py_int_def)

lemma one_minus_overlap_default: "one_minus_overlap default_config = 1 / 2"
  by (simp add: one_minus_overlap_def default_config_def f64_small)

lemma step_default: "step_samples default_config = 250"
  unfolding step_samples_def ws_default one_minus_overlap_default
  by (simp add: f64_small py_int_def)

lemma not_overflows:
  "\<bar>f64_round x\<bar> \<le> 1000 \<Longrightarrow> \<not> f64_overflows x"
proof -
  assume a: "\<bar>f64_round x\<bar> \<le> 1000"
  have "(1000::real) < 2 ^ 10" by simp
  also have "(2::real) ^ 10 \<le> 2 ^ 1024" by (rule power_increasing) simp_all
  finally show ?thesis using a by (simp add: f64_overflows_def)
qed

lemma config_error_default: "config_error default_config = None"
  unfolding config_error_def ws_default one_minus_overlap_default
  by (simp add: default_config_def not_overflows f64_small)

lemma window_starts_default:
  "window_starts default_config N = Inr (range_up 0 (N - 499) 250)"
  by (simp add: window_starts_def py_range_def ws_default step_default algebra_simps)

lemma subject_features_short:
  assumes "n_samples df subj < 500"
  shows "subject_features default_config lib df subj = Inr []"
  using assms
  by (simp add: subject_features_def window_starts_default range_up_Nil bind_err_def
      map_err_def enumerate_eq_zip)

lemma n_samples_flat:
  "n_samples \<lparr>df_columns = cs, df_rows = flat_recording fs subj chans n\<rparr> subj = int n"
  by (simp add: n_samples_def subject_data_def flat_recording_def filter_map o_def)

lemma py_int_nonneg: "0 \<le> x \<Longrightarrow> py_int x = \<lfloor>x\<rfloor>"
  by (simp add: py_int_def)

lemma window_starts_pos:
  assumes "0 < step_samples cfg"
  shows "\<exists>starts. window_starts cfg n = Inr starts \<and>
      int (length starts) =
        (if window_samples cfg \<le> n then (n - window_samples cfg) div step_samples cfg + 1 else 0)"
proof -
  have "window_starts cfg n = Inr (range_up 0 (n - window_samples cfg + 1) (step_samples cfg))"
    using assms by (simp add: window_starts_def py_range_def)
  moreover have "int (length (range_up 0 (n - window_samples cfg + 1) (step_samples cfg))) =
      (if window_samples cfg \<le> n then (n - window_samples cfg) div step_samples cfg + 1 else 0)"
    using assms by (simp add: range_up_length)
  ultimately show ?thesis by simp
qed

lemma step_samples_floor:
  assumes "1 \<le> window_samples cfg" and "WINDOW_OVERLAP cfg < 1"
  shows "0 \<le> f64_round (f64_round (of_int (window_samples cfg)) * one_minus_overlap cfg)"
    and "step_samples cfg =
           \<lfloor>f64_round (f64_round (of_int (window_samples cfg)) * one_minus_overlap cfg)\<rfloor>"
proof -
  have "f64_round (WINDOW_OVERLAP cfg) \<le> 1"
    using assms(2) by (intro f64_round_le_one) simp
  then have d: "0 \<le> one_minus_overlap cfg"
    unfolding one_minus_overlap_def by (intro f64_round_nonneg) simp
  have w: "0 \<le> f64_round (of_int (window_samples cfg))"
    using assms(1) by (intro f64_round_nonneg) simp
  show x0: "0 \<le> f64_round (f64_round (of_int (window_samples cfg)) * one_minus_overlap cfg)"
    by (rule f64_round_nonneg) (rule mult_nonneg_nonneg [OF w d])
  show "step_samples cfg =
           \<lfloor>f64_round (f64_round (of_int (window_samples cfg)) * one_minus_overlap cfg)\<rfloor>"
    unfolding step_samples_def using x0 by (rule py_int_nonneg)
qed

lemma step_samples_nonneg:
  assumes "1 \<le> window_samples cfg" and "WINDOW_OVERLAP cfg < 1"
  shows "0 \<le> step_samples cfg"
  using step_samples_floor [OF assms] by simp

text \<open>
  Claim C2, as amended. The step is \<open>int(window_samples * (1 - WINDOW_OVERLAP))\<close>,
  computed in float64, and nothing clamps it. For a configuration whose two
  assignments raise nothing, with a window of at least one sample and an overlap
  in \<open>[0, 1)\<close>, the step is the floor of the rounded product and is not negative:
  it is at least 1 exactly when the rounded product is at least 1. Then the
  enumeration of the window starts ends and returns the starts; when the step
  is 0, \<open>range\<close> raises ValueError.
\<close>

theorem step_samples_unclamped:
  assumes "config_error cfg = None"
    and "1 \<le> window_samples cfg" and "0 \<le> WINDOW_OVERLAP cfg" and "WINDOW_OVERLAP cfg < 1"
  shows "step_samples cfg =
           \<lfloor>f64_round (f64_round (of_int (window_samples cfg)) * one_minus_overlap cfg)\<rfloor> \<and>
         0 \<le> step_samples cfg \<and>
         (1 \<le> step_samples cfg \<longleftrightarrow>
            1 \<le> f64_round (f64_round (of_int (window_samples cfg)) * one_minus_overlap cfg)) \<and>
         (step_samples cfg = 0 \<longrightarrow> window_starts cfg n = Inl ValueError) \<and>
         (1 \<le> step_samples cfg \<longrightarrow>
            (\<exists>starts. window_starts cfg n = Inr starts \<and>
               int (length starts) =
                 (if window_samples cfg \<le> n
                  then (n - window_samples cfg) div step_samples cfg + 1 else 0)))"
proof -
  let ?x = "f64_round (f64_round (of_int (window_samples cfg)) * one_minus_overlap cfg)"
  have s: "step_samples cfg = \<lfloor>?x\<rfloor>"
    using assms(2,4) by (rule step_samples_floor(2))
  have nonneg: "0 \<le> step_samples cfg"
    using assms(2,4) by (rule step_samples_nonneg)
  have iff: "(1 \<le> step_samples cfg) = (1 \<le> ?x)"
    unfolding s by (simp add: le_floor_iff)
  have zero: "step_samples cfg = 0 \<longrightarrow> window_starts cfg n = Inl ValueError"
    by (simp add: window_starts_def py_range_def)
  have pos: "1 \<le> step_samples cfg \<longrightarrow>
            (\<exists>starts. window_starts cfg n = Inr starts \<and>
               int (length starts) =
                 (if window_samples cfg \<le> n
                  then (n - window_samples cfg) div step_samples cfg + 1 else 0))"
    using window_starts_pos [of cfg n] by simp
  show ?thesis using s nonneg iff zero pos by blast
qed

theorem step_samples_unclamped_witness:
  "config_error default_config = None \<and>
   1 \<le> window_samples default_config \<and> 0 \<le> WINDOW_OVERLAP default_config \<and>
   WINDOW_OVERLAP default_config < 1 \<and> step_samples default_config = 250 \<and>
   (\<exists>starts. window_starts default_config 1250 = Inr starts \<and> int (length starts) = 4)"
  using step_samples_unclamped [of default_config 1250]
  by (simp add: ws_default step_default config_error_default) (simp add: default_config_def)

text \<open>
  The claim as stated fails for an overlap close to 1: with a window of 500
  samples and an overlap of 0.999 the step is 0 and the enumeration raises.
\<close>

lemma ws_999: "window_samples (default_config\<lparr>WINDOW_OVERLAP := 999 / 1000\<rparr>) = 500"
  by (simp add: window_samples_def default_config_def f64_small py_int_def)

lemma one_minus_overlap_999:
  "one_minus_overlap (default_config\<lparr>WINDOW_OVERLAP := 999 / 1000\<rparr>) = 9007199254741 / 2 ^ 53"
proof -
  have ov: "WINDOW_OVERLAP (default_config\<lparr>WINDOW_OVERLAP := 999 / 1000\<rparr>) = 999 / 1000"
    by simp
  show ?thesis
    unfolding one_minus_overlap_def ov f64_round_999 by (rule f64_round_1_minus_999)
qed

lemma step_999: "step_samples (default_config\<lparr>WINDOW_OVERLAP := 999 / 1000\<rparr>) = 0"
  unfolding step_samples_def ws_999 one_minus_overlap_999 of_int_numeral f64_round_500
    f64_round_500_times
  by (simp add: py_int_def)

theorem step_samples_zero_counterexample:
  "1 \<le> window_samples (default_config\<lparr>WINDOW_OVERLAP := 999 / 1000\<rparr>) \<and>
   0 \<le> WINDOW_OVERLAP (default_config\<lparr>WINDOW_OVERLAP := 999 / 1000\<rparr>) \<and>
   WINDOW_OVERLAP (default_config\<lparr>WINDOW_OVERLAP := 999 / 1000\<rparr>) < 1 \<and>
   step_samples (default_config\<lparr>WINDOW_OVERLAP := 999 / 1000\<rparr>) = 0 \<and>
   window_starts (default_config\<lparr>WINDOW_OVERLAP := 999 / 1000\<rparr>) 1250 = Inl ValueError"
  by (simp add: ws_999 step_999 window_starts_def py_range_def)

text \<open>
  Rounding decides the step: for a window of 10 samples (10 Hz, 1 s) and the
  overlap 0.9 the exact product is 1, the float64 product is
  0.9999999999999998, and the step is 0.
\<close>

lemma step_samples_rounded_down:
  "window_samples \<lparr>SAMPLING_RATE = 10, WINDOW_SIZE = 1, WINDOW_OVERLAP = 9 / 10\<rparr> = 10 \<and>
   step_samples \<lparr>SAMPLING_RATE = 10, WINDOW_SIZE = 1, WINDOW_OVERLAP = 9 / 10\<rparr> = 0 \<and>
   window_starts \<lparr>SAMPLING_RATE = 10, WINDOW_SIZE = 1, WINDOW_OVERLAP = 9 / 10\<rparr> 30
     = Inl ValueError"
proof -
  let ?c = "\<lparr>SAMPLING_RATE = 10, WINDOW_SIZE = 1, WINDOW_OVERLAP = 9 / 10\<rparr>"
  have w: "window_samples ?c = 10"
    by (simp add: window_samples_def f64_small py_int_def)
  have ov: "WINDOW_OVERLAP ?c = 9 / 10" by simp
  have d: "one_minus_overlap ?c = 900719925474099 / 2 ^ 53"
    unfolding one_minus_overlap_def ov f64_round_9_10 by (rule f64_round_1_minus_9_10)
  have s: "step_samples ?c = 0"
    unfolding step_samples_def w d of_int_numeral f64_round_ten f64_round_10_times
    by (simp add: py_int_def)
  show ?thesis by (simp add: w s window_starts_def py_range_def)
qed

section \<open>Aggregation\<close>

lemma set_unique: "set (unique xs) = set xs"
  by (simp add: unique_def)

lemma distinct_unique: "distinct (unique xs)"
  by (simp add: unique_def)

lemma unique2: "a \<noteq> b \<Longrightarrow> unique [a, b] = [a, b]" "unique [a, a] = [a]"
  by (simp_all add: unique_def)

lemma set_insert_by: "set (insert_by before x ys) = insert x (set ys)"
  by (induction ys) auto

lemma set_order_by: "set (order_by before rows) = set rows"
  by (induction rows) (simp_all add: order_by_def set_insert_by)

lemma distinct_map_insert_by:
  "distinct (map f (insert_by before x ys)) = (distinct (map f ys) \<and> f x \<notin> f ` set ys)"
  by (induction ys) (auto simp: set_insert_by)

lemma distinct_map_order_by:
  "distinct (map f (order_by before rows)) = distinct (map f rows)"
proof (induction rows)
  case Nil
  show ?case by (simp add: order_by_def)
next
  case (Cons a rows)
  have "order_by before (a # rows) = insert_by before a (order_by before rows)"
    by (simp add: order_by_def)
  then show ?case using Cons by (auto simp: distinct_map_insert_by set_order_by)
qed

lemma distinct_map_sort_key:
  "distinct (map f (sort_key f xs)) = distinct (map f xs)"
  by (induction xs) (simp_all add: distinct_insort_key)

lemma workload_row_sel [simp]:
  "gw_channel (workload_row eng k g) = k" "gw_n_windows (workload_row eng k g) = length g"
  by (simp_all add: workload_row_def)

lemma subject_row_sel [simp]:
  "gs_subject (subject_row eng k g) = k"
  "gs_n_windows (subject_row eng k g) = length (remdups (map window_idx g))"
  by (simp_all add: subject_row_def)

lemma workload_stats_row:
  assumes "r \<in> set (gold_workload_stats eng silver)"
  shows "gw_n_windows r = length (filter (\<lambda>x. channel x = gw_channel r) silver)"
  using assms
  by (auto simp: gold_workload_stats_def set_order_by group_by_def set_unique)

lemma subject_stats_row:
  assumes "r \<in> set (gold_subject_stats eng silver)"
  shows "gs_n_windows r = card (window_idx ` {x \<in> set silver. subject x = gs_subject r})"
proof -
  have "length (remdups (map window_idx (filter (\<lambda>x. subject x = k) silver)))
        = card (window_idx ` {x \<in> set silver. subject x = k})" for k
    by (simp add: length_remdups_card_conv)
  then show ?thesis using assms
    by (auto simp: gold_subject_stats_def group_by_def set_unique)
qed

lemma workload_keys:
  "distinct (map gw_channel (gold_workload_stats eng silver)) \<and>
   set (map gw_channel (gold_workload_stats eng silver)) = set (map channel silver)"
proof -
  have e: "map (gw_channel \<circ> (\<lambda>(k, g). workload_row eng k g)) (group_by channel silver)
           = unique (map channel silver)"
    by (simp add: group_by_def o_def)
  have d: "distinct (map gw_channel (gold_workload_stats eng silver))"
    using distinct_unique [of "map channel silver"] e
    by (simp add: gold_workload_stats_def distinct_map_order_by)
  have "gw_channel ` set (gold_workload_stats eng silver) = set (unique (map channel silver))"
    unfolding e [symmetric] by (simp add: gold_workload_stats_def set_order_by image_image)
  then show ?thesis using d by (simp add: set_unique)
qed

lemma subject_keys:
  "sorted (map gs_subject (gold_subject_stats eng silver)) \<and>
   distinct (map gs_subject (gold_subject_stats eng silver)) \<and>
   set (map gs_subject (gold_subject_stats eng silver)) = set (map subject silver)"
proof -
  have e: "map (gs_subject \<circ> (\<lambda>(k, g). subject_row eng k g)) (group_by subject silver)
           = unique (map subject silver)"
    by (simp add: group_by_def o_def)
  have s: "sorted (map gs_subject (gold_subject_stats eng silver))"
    by (simp add: gold_subject_stats_def)
  have d: "distinct (map gs_subject (gold_subject_stats eng silver))"
    using distinct_unique [of "map subject silver"] e
    by (simp add: gold_subject_stats_def distinct_map_sort_key)
  have "gs_subject ` set (gold_subject_stats eng silver) = set (unique (map subject silver))"
    unfolding e [symmetric] by (simp add: gold_subject_stats_def image_image)
  then show ?thesis using s d by (simp add: set_unique)
qed

lemma flat_row_sel [simp]:
  "channel (flat_row s c i) = c" "subject (flat_row s c i) = s" "window_idx (flat_row s c i) = i"
  by (simp_all add: flat_row_def features.defs FeatureRow.defs)

lemma gold_subject_two:
  "gold_subject_stats eng [flat_row ''s00'' ''Fp1'' 0, flat_row ''s00'' ''Fp2'' 0] =
     [subject_row eng ''s00'' [flat_row ''s00'' ''Fp1'' 0, flat_row ''s00'' ''Fp2'' 0]]"
  by (simp add: gold_subject_stats_def group_by_def unique2)

lemma gold_workload_two:
  "set (gold_workload_stats eng [flat_row ''s00'' ''Fp1'' 0, flat_row ''s00'' ''Fp2'' 0]) =
     {workload_row eng ''Fp1'' [flat_row ''s00'' ''Fp1'' 0],
      workload_row eng ''Fp2'' [flat_row ''s00'' ''Fp2'' 0]}"
  by (simp add: gold_workload_stats_def set_order_by group_by_def unique2)

text \<open>
  Claim C3, as amended. Each table has one row for each distinct key. In the
  channel table \<open>n_windows\<close> is the number of feature rows of that channel. In
  the subject table \<open>n_windows\<close> is the number of distinct \<open>window_idx\<close> values
  among the feature rows of that subject, not the number of those rows.
\<close>

theorem n_windows_counts:
  "(\<forall>r\<in>set (gold_workload_stats eng silver).
      gw_n_windows r = length (filter (\<lambda>x. channel x = gw_channel r) silver)) \<and>
   distinct (map gw_channel (gold_workload_stats eng silver)) \<and>
   set (map gw_channel (gold_workload_stats eng silver)) = set (map channel silver) \<and>
   (\<forall>r\<in>set (gold_subject_stats eng silver).
      gs_n_windows r = card (window_idx ` {x \<in> set silver. subject x = gs_subject r})) \<and>
   distinct (map gs_subject (gold_subject_stats eng silver)) \<and>
   set (map gs_subject (gold_subject_stats eng silver)) = set (map subject silver)"
  using workload_stats_row [of _ eng silver] subject_stats_row [of _ eng silver]
    workload_keys [of eng silver] subject_keys [of eng silver]
  by blast

theorem n_windows_counts_witness:
  "workload_row exact_engine ''Fp1'' [flat_row ''s00'' ''Fp1'' 0]
     \<in> set (gold_workload_stats exact_engine
              [flat_row ''s00'' ''Fp1'' 0, flat_row ''s00'' ''Fp2'' 0]) \<and>
   gw_n_windows (workload_row exact_engine ''Fp1'' [flat_row ''s00'' ''Fp1'' 0]) = 1 \<and>
   subject_row exact_engine ''s00'' [flat_row ''s00'' ''Fp1'' 0, flat_row ''s00'' ''Fp2'' 0]
     \<in> set (gold_subject_stats exact_engine
              [flat_row ''s00'' ''Fp1'' 0, flat_row ''s00'' ''Fp2'' 0]) \<and>
   card (window_idx ` {x \<in> set [flat_row ''s00'' ''Fp1'' 0, flat_row ''s00'' ''Fp2'' 0].
                         subject x = ''s00''}) = 1"
  using n_windows_counts [of exact_engine "[flat_row ''s00'' ''Fp1'' 0, flat_row ''s00'' ''Fp2'' 0]"]
  by (simp add: gold_subject_two gold_workload_two)

text \<open>
  The claim as stated fails for the subject table: the two feature rows of one
  window 0 of subject s00 (channels Fp1 and Fp2) give \<open>n_windows = 1\<close>, while
  two feature rows share the subject.
\<close>

theorem n_windows_subject_counterexample:
  "map gs_n_windows
     (gold_subject_stats exact_engine
        [flat_row ''s00'' ''Fp1'' 0, flat_row ''s00'' ''Fp2'' 0]) = [1] \<and>
   map gs_subject
     (gold_subject_stats exact_engine
        [flat_row ''s00'' ''Fp1'' 0, flat_row ''s00'' ''Fp2'' 0]) = [''s00''] \<and>
   map subject [flat_row ''s00'' ''Fp1'' 0, flat_row ''s00'' ''Fp2'' 0] = [''s00'', ''s00''] \<and>
   map window_idx [flat_row ''s00'' ''Fp1'' 0, flat_row ''s00'' ''Fp2'' 0] = [0, 0]"
  by (simp add: gold_subject_two)

section \<open>Spectral entropy\<close>

lemma fadd_Fin_iff: "fadd a b = Fin t \<longleftrightarrow> (\<exists>x y. a = Fin x \<and> b = Fin y \<and> t = x + y)"
  by (cases a; cases b) auto

lemma foldl_fadd_Fin:
  "foldl fadd acc xs = Fin t \<Longrightarrow> \<exists>c as. acc = Fin c \<and> xs = map Fin as \<and> t = c + sum_list as"
proof (induction xs arbitrary: acc)
  case Nil
  then show ?case by simp
next
  case (Cons x xs)
  from Cons.prems have "foldl fadd (fadd acc x) xs = Fin t" by simp
  from Cons.IH [OF this] obtain c as where
    a: "fadd acc x = Fin c" and b: "xs = map Fin as" and c: "t = c + sum_list as" by blast
  from a obtain u v where "acc = Fin u" "x = Fin v" "c = u + v"
    by (auto simp: fadd_Fin_iff)
  then have "acc = Fin u \<and> x # xs = map Fin (v # as) \<and> t = u + sum_list (v # as)"
    using b c by simp
  then show ?case by (intro exI [where x = u] exI [where x = "v # as"])
qed

lemma foldl_fadd_map_Fin: "foldl fadd (Fin c) (map Fin as) = Fin (c + sum_list as)"
  by (induction as arbitrary: c) (simp_all add: add.assoc)

lemma np_sum_map_Fin: "np_sum (map Fin as) = Fin (sum_list as)"
  by (simp add: np_sum_def foldl_fadd_map_Fin)

lemma np_sum_Fin: "np_sum xs = Fin t \<Longrightarrow> \<exists>as. xs = map Fin as \<and> t = sum_list as"
  unfolding np_sum_def by (drule foldl_fadd_Fin) auto

lemma not_pos_div_nonfinite:
  assumes "\<forall>t. tot \<noteq> Fin t"
  shows "\<not> fgt (fdiv p tot) (Fin 0)"
  using assms by (cases p; cases tot) (simp_all add: fgt_def)

lemma entropy_nonfinite_total:
  assumes "\<forall>t. np_sum psd \<noteq> Fin t"
  shows "spectral_entropy_of_psd psd = Fin 0"
proof -
  have "filter (\<lambda>p. fgt p (Fin 0)) (map (\<lambda>p. fdiv p (np_sum psd)) psd) = []"
    using not_pos_div_nonfinite [OF assms] by (simp add: filter_empty_conv)
  then show ?thesis by (simp add: spectral_entropy_of_psd_def Let_def np_sum_def)
qed

lemma sum_list_nonneg_zero:
  "\<forall>a\<in>set as. (0::real) \<le> a \<Longrightarrow> sum_list as = 0 \<Longrightarrow> \<forall>a\<in>set as. a = 0"
  by (induction as) (auto simp: add_nonneg_eq_0_iff sum_list_nonneg)

lemma entropy_zero_total:
  assumes "\<forall>a\<in>set as. (0::real) \<le> a" and "sum_list as = 0"
  shows "spectral_entropy_of_psd (map Fin as) = Fin 0"
proof -
  have z: "\<forall>a\<in>set as. a = 0" using assms by (rule sum_list_nonneg_zero)
  have "filter (\<lambda>p. fgt p (Fin 0)) (map (\<lambda>p. fdiv p (Fin 0)) (map Fin as)) = []"
    using z by (simp add: filter_empty_conv fgt_def)
  then show ?thesis using assms(2)
    by (simp add: spectral_entropy_of_psd_def Let_def np_sum_map_Fin) (simp add: np_sum_def)
qed

lemma member_le_sum_list:
  "\<forall>a\<in>set as. (0::real) \<le> a \<Longrightarrow> x \<in> set as \<Longrightarrow> x \<le> sum_list as"
  by (induction as) (auto simp: sum_list_nonneg add_increasing add_increasing2)

lemma sum_list_map_nonpos:
  "\<forall>x\<in>set xs. f x \<le> (0::real) \<Longrightarrow> sum_list (map f xs) \<le> 0"
  by (induction xs) (simp_all add: add_nonpos_nonpos)

lemma plogp_nonpos: "0 < q \<Longrightarrow> q \<le> 1 \<Longrightarrow> q * log 2 q \<le> (0::real)"
  by (simp add: mult_le_0_iff)

lemma entropy_pos_total:
  assumes nn: "\<forall>a\<in>set as. (0::real) \<le> a" and pos: "0 < sum_list as"
  shows "\<exists>v. spectral_entropy_of_psd (map Fin as) = Fin v \<and> 0 \<le> v"
proof -
  let ?t = "sum_list as"
  let ?qs = "filter (\<lambda>q. 0 < q) (map (\<lambda>a. a / ?t) as)"
  have kept: "filter (\<lambda>p. fgt p (Fin 0)) (map (\<lambda>p. fdiv p (Fin ?t)) (map Fin as)) = map Fin ?qs"
    using pos by (simp add: filter_map o_def fgt_def)
  have q: "\<forall>q\<in>set ?qs. 0 < q \<and> q \<le> 1"
    using member_le_sum_list [OF nn] pos by auto
  have terms: "map (\<lambda>p. fmul p (flog 2 p)) (map Fin ?qs) = map Fin (map (\<lambda>q. q * log 2 q) ?qs)"
    using q by simp
  have "\<forall>q\<in>set ?qs. q * log 2 q \<le> 0"
    using q plogp_nonpos by blast
  then have "sum_list (map (\<lambda>q. q * log 2 q) ?qs) \<le> 0"
    by (rule sum_list_map_nonpos)
  moreover have "spectral_entropy_of_psd (map Fin as)
      = Fin (- sum_list (map (\<lambda>q. q * log 2 q) ?qs))"
    unfolding spectral_entropy_of_psd_def Let_def np_sum_map_Fin kept terms by simp
  ultimately show ?thesis by simp
qed

lemma entropy_of_psd_nonneg:
  assumes "\<forall>p\<in>set psd. p = NaN \<or> fle (Fin 0) p"
  shows "\<exists>v. spectral_entropy_of_psd psd = Fin v \<and> 0 \<le> v \<and> (np_sum psd = Fin 0 \<longrightarrow> v = 0)"
proof (cases "\<exists>t. np_sum psd = Fin t")
  case False
  then show ?thesis using entropy_nonfinite_total [of psd] by simp
next
  case True
  then obtain t where t: "np_sum psd = Fin t" by blast
  then obtain as where as: "psd = map Fin as" "t = sum_list as"
    using np_sum_Fin by blast
  have nn: "\<forall>a\<in>set as. 0 \<le> a" using assms as(1) by auto
  show ?thesis
  proof (cases "sum_list as = 0")
    case True
    then show ?thesis using entropy_zero_total [OF nn] as by simp
  next
    case False
    then have "0 < sum_list as" using sum_list_nonneg [of as] nn by fastforce
    then show ?thesis using entropy_pos_total [OF nn] t as by auto
  qed
qed

text \<open>
  Claim C5. Let the spectral estimate of a segment be a power spectral density
  whose values are non-negative (or not-a-number). Then compute_spectral_entropy
  returns a finite, non-negative value, never not-a-number; when the density sums
  to zero every normalised value is 0/0, the filter \<open>psd_norm > 0\<close> removes them
  all, and the result is 0.
\<close>

theorem spectral_entropy_guarded:
  assumes "welch lib data fs (min 256 (length data)) = Inr (freqs, psd)"
    and "\<forall>p\<in>set psd. p = NaN \<or> fle (Fin 0) p"
  shows "\<exists>v. compute_spectral_entropy lib data fs = Inr (Fin v) \<and> 0 \<le> v \<and>
           (np_sum psd = Fin 0 \<longrightarrow> v = 0)"
  using entropy_of_psd_nonneg [OF assms(2)] assms(1)
  by (simp add: compute_spectral_entropy_def bind_err_def)

theorem spectral_entropy_guarded_witness:
  "welch failing_fit_lib (replicate 500 (Fin 0)) 250 (min 256 (length (replicate 500 (Fin 0))))
     = Inr ([Fin 0], [Fin 0]) \<and>
   fle (Fin 0) (Fin 0) \<and>
   np_sum [Fin 0] = Fin 0 \<and>
   compute_spectral_entropy failing_fit_lib (replicate 500 (Fin 0)) 250 = Inr (Fin 0)"
  using spectral_entropy_guarded [of failing_fit_lib "replicate 500 (Fin 0)" 250 "[Fin 0]" "[Fin 0]"]
  by (simp add: failing_fit_lib_def np_sum_def)

section \<open>Detrended fluctuation analysis\<close>

lemma compute_dfa_returns: "\<exists>v. compute_dfa lib data = Inr v"
  by (cases "compute_dfa_body lib data") (simp_all add: compute_dfa_def)

lemma slice_bound_in: "0 \<le> i \<Longrightarrow> i \<le> int n \<Longrightarrow> slice_bound n i = nat i"
  by (simp add: slice_bound_def)

lemma py_slice_take_drop:
  assumes "0 \<le> a" "a \<le> b" "b \<le> int (length xs)"
  shows "py_slice xs a b = take (nat (b - a)) (drop (nat a) xs)"
proof -
  have "slice_bound (length xs) a = nat a" "slice_bound (length xs) b = nat b"
    using assms by (simp_all add: slice_bound_in)
  then show ?thesis using assms by (simp add: py_slice_def Let_def nat_diff_distrib)
qed

lemma dfa_slice:
  assumes "0 < s" and "i < length y div s"
  shows "py_slice y (int i * int s) ((int i + 1) * int s) = take s (drop (i * s) y)"
    and "length (take s (drop (i * s) y)) = s"
proof -
  have "Suc i \<le> length y div s" using assms by simp
  then have "Suc i * s \<le> (length y div s) * s" by (rule mult_le_mono1)
  also have "\<dots> \<le> length y" by simp
  finally have le: "i * s + s \<le> length y" by simp
  have le': "(int i + 1) * int s \<le> int (length y)"
  proof -
    have "int (i * s + s) \<le> int (length y)" using le by (simp only: zle_int)
    moreover have "(int i + 1) * int s = int (i * s + s)" by (simp add: algebra_simps)
    ultimately show ?thesis by simp
  qed
  have a: "0 \<le> int i * int s" by simp
  have b: "int i * int s \<le> (int i + 1) * int s" by (simp add: algebra_simps)
  have n: "nat ((int i + 1) * int s - int i * int s) = s" by (simp add: algebra_simps)
  have m: "nat (int i * int s) = i * s" by (simp add: nat_mult_distrib)
  show "py_slice y (int i * int s) ((int i + 1) * int s) = take s (drop (i * s) y)"
    using py_slice_take_drop [OF a b le'] by (simp only: n m)
  show "length (take s (drop (i * s) y)) = s" using le by simp
qed

lemma dfa_segments_eq:
  assumes "2 \<le> s"
  shows "dfa_segments (int (length y)) y (int s) =
         map (\<lambda>i. take s (drop (i * s) y)) [0..<length y div s]"
proof -
  have s0: "0 < s" using assms by simp
  have k: "nat (int (length y) div int s) = length y div s"
    by (simp add: zdiv_int [symmetric])
  have e: "map (\<lambda>i. py_slice y (int i * int s) ((int i + 1) * int s)) [0..<length y div s]
         = map (\<lambda>i. take s (drop (i * s) y)) [0..<length y div s]"
    by (rule map_cong [OF refl]) (simp add: dfa_slice(1) [OF s0])
  have f: "filter (\<lambda>segment. \<not> length segment < 2)
             (map (\<lambda>i. take s (drop (i * s) y)) [0..<length y div s])
           = map (\<lambda>i. take s (drop (i * s) y)) [0..<length y div s]"
    using dfa_slice(2) [OF s0, of _ y] assms by (simp add: filter_id_conv del: length_take)
  show ?thesis unfolding dfa_segments_def k e f ..
qed

lemma concat_blocks:
  "k * s \<le> length y \<Longrightarrow>
   concat (map (\<lambda>i. take s (drop (i * s) y)) [0..<k]) = take (k * s) y"
proof (induction k)
  case 0
  show ?case by simp
next
  case (Suc k)
  then have "concat (map (\<lambda>i. take s (drop (i * s) y)) [0..<k]) = take (k * s) y" by simp
  then have "concat (map (\<lambda>i. take s (drop (i * s) y)) [0..<Suc k])
           = take (k * s) y @ take s (drop (k * s) y)" by simp
  also have "\<dots> = take (k * s + s) y" by (simp add: take_add)
  finally show ?case by (simp add: add.commute)
qed

lemma dfa_scale_fluct_eq:
  assumes "2 \<le> s"
  shows "dfa_scale_fluct lib (int (length y)) y (int s) =
         (if length y < s then Inr None
          else bind_err (map_err (dfa_segment_rms lib) (dfa_segments (int (length y)) y (int s)))
                 (\<lambda>F. Inr (Some (np_mean F))))"
proof (cases "length y < s")
  case True
  then show ?thesis by (simp add: dfa_scale_fluct_def zdiv_int [symmetric])
next
  case False
  then have d: "1 \<le> length y div s" using assms by (simp add: Suc_le_eq div_greater_zero_iff)
  then have nd: "\<not> int (length y) div int s < 1" by (simp add: zdiv_int [symmetric])
  have len: "length (dfa_segments (int (length y)) y (int s)) = length y div s"
    by (simp add: dfa_segments_eq [OF assms])
  show ?thesis
  proof (cases "map_err (dfa_segment_rms lib) (dfa_segments (int (length y)) y (int s))")
    case (Inl e)
    then show ?thesis using False nd by (simp add: dfa_scale_fluct_def)
  next
    case (Inr F)
    then have "length F = length y div s" using map_err_length len by fastforce
    then have "F \<noteq> []" using d by auto
    then show ?thesis using False nd Inr by (simp add: dfa_scale_fluct_def)
  qed
qed

lemma dfa_segments_concat:
  assumes "2 \<le> s"
  shows "concat (dfa_segments (int (length y)) y (int s)) = take (length y - length y mod s) y"
proof -
  have "length y div s * s \<le> length y" by simp
  then have "concat (map (\<lambda>i. take s (drop (i * s) y)) [0..<length y div s])
           = take (length y div s * s) y" by (rule concat_blocks)
  moreover have "length y div s * s = length y - length y mod s"
    by (simp add: minus_mod_eq_div_mult)
  ultimately show ?thesis by (simp add: dfa_segments_eq [OF assms])
qed

lemma dfa_segment_rms_eq:
  "polyfit lib (np_arange (length seg)) seg = Inr fit \<Longrightarrow>
   dfa_segment_rms lib seg =
     Inr (fsqrt (np_mean (map (\<lambda>(v, t). fmul (fsub v t) (fsub v t))
            (zip seg (np_polyval fit (np_arange (length seg)))))))"
  by (simp add: dfa_segment_rms_def Let_def)

lemma length_np_arange [simp]: "length (np_arange n) = n"
  by (simp add: np_arange_def)

lemma segments_16_10:
  "length y = 16 \<Longrightarrow> dfa_segments 16 y 10 = [take 10 y]"
  using dfa_segments_eq [of 10 y] by simp

lemma length_cumsum_from [simp]: "length (cumsum_from acc xs) = length xs"
  by (induction xs arbitrary: acc) simp_all

lemma length_np_cumsum [simp]: "length (np_cumsum xs) = length xs"
  by (cases xs) (simp_all add: np_cumsum_def)

lemma length_dfa_profile [simp]: "length (dfa_profile data) = length data"
  by (simp add: dfa_profile_def)

lemma map_filter_replicate_Some: "List.map_filter id (replicate n (Some v)) = replicate n v"
  by (induction n) (simp_all add: List.map_filter_simps)

lemma failing_scales: "dfa_scales failing_fit_lib N = replicate 8 10"
  by (simp add: dfa_scales_def failing_fit_lib_def)

lemma unit_scales: "dfa_scales unit_slope_lib N = replicate 8 10"
  by (simp add: dfa_scales_def unit_slope_lib_def failing_fit_lib_def)

lemma failing_scale_fluct:
  "length y = 16 \<Longrightarrow> dfa_scale_fluct failing_fit_lib 16 y 10 = Inl LinAlgError"
  by (simp add: dfa_scale_fluct_def segments_16_10 map_err_Cons dfa_segment_rms_def
      failing_fit_lib_def Let_def)

lemma failing_flucts:
  "dfa_flucts failing_fit_lib (replicate 16 (Fin 0)) = Inl LinAlgError"
proof -
  have "map_err (dfa_scale_fluct failing_fit_lib 16 (dfa_profile (replicate 16 (Fin 0))))
          (replicate (Suc 7) 10) = Inl LinAlgError"
    by (rule map_err_replicate_Inl) (simp add: failing_scale_fluct)
  then show ?thesis by (simp add: dfa_flucts_def failing_scales Let_def)
qed

lemma unit_scale_fluct:
  "length y = 16 \<Longrightarrow> \<exists>v. dfa_scale_fluct unit_slope_lib 16 y 10 = Inr (Some v)"
  by (simp add: dfa_scale_fluct_def segments_16_10 map_err_Cons dfa_segment_rms_def
      unit_slope_lib_def failing_fit_lib_def Let_def)

lemma unit_flucts:
  "\<exists>v. dfa_flucts unit_slope_lib (replicate 16 (Fin 0)) = Inr (replicate 8 v)"
proof -
  obtain v where v: "dfa_scale_fluct unit_slope_lib 16 (dfa_profile (replicate 16 (Fin 0))) 10
      = Inr (Some v)"
    using unit_scale_fluct [of "dfa_profile (replicate 16 (Fin 0))"] by auto
  have "map_err (dfa_scale_fluct unit_slope_lib 16 (dfa_profile (replicate 16 (Fin 0))))
          (replicate 8 10) = Inr (replicate 8 (Some v))"
    using v by (rule map_err_replicate_Inr)
  then have "dfa_flucts unit_slope_lib (replicate 16 (Fin 0)) = Inr (replicate 8 v)"
    by (simp add: dfa_flucts_def unit_scales Let_def map_filter_replicate_Some)
  then show ?thesis by blast
qed

text \<open>
  Claim C4. compute_dfa never raises. It returns 0 for fewer than 16 samples,
  0 whenever a statement inside \<open>try\<close> raises (in the loop over the scales or in
  the final fit), 0 when fewer than two fluctuation values were appended, and
  otherwise the slope that the final fit returns.
\<close>

theorem compute_dfa_never_raises:
  "(\<exists>v. compute_dfa lib data = Inr v) \<and>
   (length data < 16 \<longrightarrow> compute_dfa lib data = Inr (Fin 0)) \<and>
   (\<forall>e. compute_dfa_body lib data = Inl e \<longrightarrow> compute_dfa lib data = Inr (Fin 0)) \<and>
   (16 \<le> length data \<longrightarrow>
      (\<forall>e. dfa_flucts lib data = Inl e \<longrightarrow> compute_dfa lib data = Inr (Fin 0)) \<and>
      (\<forall>flucts. dfa_flucts lib data = Inr flucts \<longrightarrow>
         (length flucts < 2 \<longrightarrow> compute_dfa lib data = Inr (Fin 0)) \<and>
         (2 \<le> length flucts \<longrightarrow>
            (\<forall>e. polyfit lib (dfa_log_scales lib data flucts) (map (flog 10) flucts) = Inl e
                  \<longrightarrow> compute_dfa lib data = Inr (Fin 0)) \<and>
            (\<forall>slope icpt.
                  polyfit lib (dfa_log_scales lib data flucts) (map (flog 10) flucts)
                    = Inr (slope, icpt)
                  \<longrightarrow> compute_dfa lib data = Inr slope))))"
proof -
  have a: "\<exists>v. compute_dfa lib data = Inr v" by (rule compute_dfa_returns)
  have b: "length data < 16 \<longrightarrow> compute_dfa lib data = Inr (Fin 0)"
    by (simp add: compute_dfa_def compute_dfa_body_def)
  have c: "\<forall>e. compute_dfa_body lib data = Inl e \<longrightarrow> compute_dfa lib data = Inr (Fin 0)"
    by (simp add: compute_dfa_def)
  have d: "16 \<le> length data \<longrightarrow>
      (\<forall>e. dfa_flucts lib data = Inl e \<longrightarrow> compute_dfa lib data = Inr (Fin 0)) \<and>
      (\<forall>flucts. dfa_flucts lib data = Inr flucts \<longrightarrow>
         (length flucts < 2 \<longrightarrow> compute_dfa lib data = Inr (Fin 0)) \<and>
         (2 \<le> length flucts \<longrightarrow>
            (\<forall>e. polyfit lib (dfa_log_scales lib data flucts) (map (flog 10) flucts) = Inl e
                  \<longrightarrow> compute_dfa lib data = Inr (Fin 0)) \<and>
            (\<forall>slope icpt.
                  polyfit lib (dfa_log_scales lib data flucts) (map (flog 10) flucts)
                    = Inr (slope, icpt)
                  \<longrightarrow> compute_dfa lib data = Inr slope)))"
    by (simp add: compute_dfa_def compute_dfa_body_def dfa_alpha_fit_def)
  show ?thesis using a b c d by blast
qed

theorem compute_dfa_never_raises_witness:
  "compute_dfa failing_fit_lib (replicate 15 (Fin 0)) = Inr (Fin 0) \<and>
   dfa_flucts failing_fit_lib (replicate 16 (Fin 0)) = Inl LinAlgError \<and>
   compute_dfa failing_fit_lib (replicate 16 (Fin 0)) = Inr (Fin 0) \<and>
   (\<exists>v. dfa_flucts unit_slope_lib (replicate 16 (Fin 0)) = Inr (replicate 8 v)) \<and>
   compute_dfa unit_slope_lib (replicate 16 (Fin 0)) = Inr (Fin 1)"
proof -
  obtain v where v: "dfa_flucts unit_slope_lib (replicate 16 (Fin 0)) = Inr (replicate 8 v)"
    using unit_flucts by blast
  have p: "polyfit unit_slope_lib x y = Inr (Fin 1, Fin 0)" for x y
    by (simp add: unit_slope_lib_def)
  show ?thesis
    using compute_dfa_never_raises [of failing_fit_lib "replicate 15 (Fin 0)"]
      compute_dfa_never_raises [of failing_fit_lib "replicate 16 (Fin 0)"]
      compute_dfa_never_raises [of unit_slope_lib "replicate 16 (Fin 0)"]
      failing_flucts v p
    by simp
qed

text \<open>
  Claim C7, as amended. For a scale \<open>s \<ge> 2\<close> and a profile of \<open>N\<close> samples the
  loop visits exactly the \<open>N div s\<close> consecutive, non-overlapping segments
  \<open>y[i*s:(i+1)*s]\<close>, each of \<open>s\<close> samples; together they are the first
  \<open>N - N mod s\<close> samples, so the trailing \<open>N mod s\<close> samples are in no segment,
  however many they are. Each segment is detrended with the first-order fit of
  \<open>polyfit\<close> and gives the root of the mean squared residual; the value of the
  scale is the mean of these, and no value is appended when \<open>N < s\<close>.
\<close>

theorem dfa_full_segments_only:
  assumes "2 \<le> s"
  shows "dfa_segments (int (length y)) y (int s) =
           map (\<lambda>i. take s (drop (i * s) y)) [0..<length y div s] \<and>
         (\<forall>seg\<in>set (dfa_segments (int (length y)) y (int s)). length seg = s) \<and>
         concat (dfa_segments (int (length y)) y (int s)) = take (length y - length y mod s) y \<and>
         dfa_scale_fluct lib (int (length y)) y (int s) =
           (if length y < s then Inr None
            else bind_err
                   (map_err (dfa_segment_rms lib) (dfa_segments (int (length y)) y (int s)))
                   (\<lambda>F. Inr (Some (np_mean F)))) \<and>
         (\<forall>seg fit. polyfit lib (np_arange (length seg)) seg = Inr fit \<longrightarrow>
            dfa_segment_rms lib seg =
              Inr (fsqrt (np_mean (map (\<lambda>(v, t). fmul (fsub v t) (fsub v t))
                     (zip seg (np_polyval fit (np_arange (length seg))))))))"
proof -
  have s0: "0 < s" using assms by simp
  have "\<forall>seg\<in>set (dfa_segments (int (length y)) y (int s)). length seg = s"
    unfolding dfa_segments_eq [OF assms] using dfa_slice(2) [OF s0, of _ y]
    by (auto simp del: length_take)
  then show ?thesis
    using dfa_segments_eq [OF assms, of y] dfa_segments_concat [OF assms, of y]
      dfa_scale_fluct_eq [OF assms, of lib y] dfa_segment_rms_eq [of lib]
    by blast
qed

theorem dfa_full_segments_only_witness:
  "(2::nat) \<le> 10 \<and>
   dfa_segments (int (length (dfa_profile (np_arange 16)))) (dfa_profile (np_arange 16)) (int 10)
     = [take 10 (dfa_profile (np_arange 16))] \<and>
   take 10 (dfa_profile (np_arange 16))
     \<in> set (dfa_segments (int (length (dfa_profile (np_arange 16))))
              (dfa_profile (np_arange 16)) (int 10)) \<and>
   length (take 10 (dfa_profile (np_arange 16))) = 10 \<and>
   polyfit unit_slope_lib (np_arange (length (take 10 (dfa_profile (np_arange 16)))))
     (take 10 (dfa_profile (np_arange 16))) = Inr (Fin 1, Fin 0) \<and>
   (\<exists>f. dfa_scale_fluct unit_slope_lib (int (length (dfa_profile (np_arange 16))))
          (dfa_profile (np_arange 16)) (int 10) = Inr (Some f))"
  using dfa_full_segments_only [of 10 "dfa_profile (np_arange 16)" unit_slope_lib]
  by (simp add: segments_16_10 map_err_Cons dfa_segment_rms_def unit_slope_lib_def
      failing_fit_lib_def Let_def)

text \<open>
  The claim as stated fails: for the profile of the 16 samples 0, 1, ..., 15 and
  the scale 10 (\<open>10 ** 1.0\<close>, the first scale of every run) the only segment is
  the first 10 values of the profile, and the remainder of 6 values is dropped
  although it is longer than one sample.
\<close>

theorem dfa_remainder_dropped_counterexample:
  "length (np_arange 16) = 16 \<and>
   length (dfa_profile (np_arange 16)) = 16 \<and>
   dfa_segments (int (length (np_arange 16))) (dfa_profile (np_arange 16)) 10
     = [take 10 (dfa_profile (np_arange 16))] \<and>
   length (drop 10 (dfa_profile (np_arange 16))) = 6 \<and>
   concat (dfa_segments (int (length (np_arange 16))) (dfa_profile (np_arange 16)) 10)
     = take 10 (dfa_profile (np_arange 16))"
  by (simp add: segments_16_10)

section \<open>Windows and feature rows\<close>



lemma bind_err_eq_Inr: "bind_err r f = Inr v \<longleftrightarrow> (\<exists>u. r = Inr u \<and> f u = Inr v)"
  by (cases r) simp_all

lemma sequence_err_map_Inr: "sequence_err (map Inr vs) = Inr vs"
  by (induction vs) simp_all

lemma sequence_err_Inr_map: "sequence_err rs = Inr vs \<Longrightarrow> rs = map Inr vs"
  by (induction rs arbitrary: vs) (auto split: sum.splits)

lemma sequence_err_all2:
  "sequence_err rs = Inr vs \<longleftrightarrow> rs = map Inr vs"
  using sequence_err_map_Inr sequence_err_Inr_map by metis

lemma map_err_eq_Inr: "map_err f xs = Inr ys \<longleftrightarrow> map f xs = map Inr ys"
  by (simp add: map_err_def sequence_err_all2)

lemma map_err_nth:
  assumes "map_err f xs = Inr ys" and "i < length xs"
  shows "f (xs ! i) = Inr (ys ! i)"
proof -
  have "map f xs = map Inr ys" using assms(1) by (simp add: map_err_eq_Inr)
  then have "map f xs ! i = map Inr ys ! i" by simp
  moreover have "length ys = length xs" using assms(1) by (rule map_err_length)
  ultimately show ?thesis using assms(2) by simp
qed

lemma map_err_total:
  assumes "\<forall>x\<in>set xs. \<exists>y. f x = Inr y"
  shows "\<exists>ys. map_err f xs = Inr ys"
  using assms by (induction xs) (auto simp: map_err_Cons)

lemma np_min_nonempty: "xs \<noteq> [] \<Longrightarrow> \<exists>v. np_min xs = Inr v"
  by (cases xs) (simp_all add: np_min_def)

lemma np_max_nonempty: "xs \<noteq> [] \<Longrightarrow> \<exists>v. np_max xs = Inr v"
  by (cases xs) (simp_all add: np_max_def)

lemma compute_bandpower_returns:
  "welch_returns lib data fs \<Longrightarrow> \<exists>v. compute_bandpower lib data fs bnd = Inr v"
  by (auto simp: welch_returns_def compute_bandpower_def Let_def split: sum.splits prod.splits)

lemma compute_spectral_entropy_returns:
  "welch_returns lib data fs \<Longrightarrow> \<exists>v. compute_spectral_entropy lib data fs = Inr v"
  by (auto simp: welch_returns_def compute_spectral_entropy_def split: sum.splits prod.splits)

lemma extract_channel:
  assumes "extract_window_features lib data chan fs = Inr f"
  shows "channel f = chan"
  using assms unfolding extract_window_features_def
  by (auto simp: bind_err_eq_Inr)

lemma extract_returns:
  assumes "data \<noteq> []" and "welch_returns lib data fs"
  shows "\<exists>f. extract_window_features lib data chan fs = Inr f"
proof -
  obtain mn mx where m: "np_min data = Inr mn" "np_max data = Inr mx"
    using np_min_nonempty [OF assms(1)] np_max_nonempty [OF assms(1)] by blast
  obtain b1 b2 b3 b4 b5 where b:
    "compute_bandpower lib data fs (band ''delta'') = Inr b1"
    "compute_bandpower lib data fs (band ''theta'') = Inr b2"
    "compute_bandpower lib data fs (band ''alpha'') = Inr b3"
    "compute_bandpower lib data fs (band ''beta'') = Inr b4"
    "compute_bandpower lib data fs (band ''gamma'') = Inr b5"
    using compute_bandpower_returns [OF assms(2)] by metis
  obtain e where e: "compute_spectral_entropy lib data fs = Inr e"
    using compute_spectral_entropy_returns [OF assms(2)] by blast
  obtain d where d: "compute_dfa lib data = Inr d"
    using compute_dfa_returns by blast
  show ?thesis
    unfolding extract_window_features_def by (simp add: m b e d)
qed


lemma iloc_first_Inr: "iloc_first xs = Inr x \<Longrightarrow> xs \<noteq> [] \<and> x = hd xs"
  by (cases xs) (simp_all add: iloc_first_def)

lemma iloc_last_Inr: "iloc_last xs = Inr x \<Longrightarrow> xs \<noteq> [] \<and> x = last xs"
  by (simp add: iloc_last_def split: if_splits)

lemma iloc_nonempty: "xs \<noteq> [] \<Longrightarrow> iloc_first xs = Inr (hd xs) \<and> iloc_last xs = Inr (last xs)"
  by (cases xs) (simp_all add: iloc_first_def iloc_last_def)

lemma map_Inr_inverse:
  assumes "map g xs = map Inr ys" and "\<And>x y. g x = Inr y \<Longrightarrow> h y = x"
  shows "map h ys = xs"
  using assms(1)
proof (induction xs arbitrary: ys)
  case Nil
  then show ?case by simp
next
  case (Cons x xs)
  then obtain y ys' where ys: "ys = y # ys'" by (cases ys) auto
  with Cons.prems have "g x = Inr y" "map g xs = map Inr ys'" by simp_all
  then show ?case using Cons.IH assms(2) ys by simp
qed

lemma map_Inr_member:
  assumes "map g xs = map Inr ys" and "y \<in> set ys"
  shows "\<exists>x\<in>set xs. g x = Inr y"
proof -
  have "Inr y \<in> set (map Inr ys)" using assms(2) by simp
  then have "Inr y \<in> set (map g xs)" using assms(1) by simp
  then show ?thesis by auto
qed

lemma FeatureRow_sel [simp]:
  "subject (features.extend f (FeatureRow.fields s k a b)) = s"
  "window_idx (features.extend f (FeatureRow.fields s k a b)) = k"
  "window_start (features.extend f (FeatureRow.fields s k a b)) = a"
  "window_end (features.extend f (FeatureRow.fields s k a b)) = b"
  "channel (features.extend f (FeatureRow.fields s k a b)) = channel f"
  by (simp_all add: features.defs FeatureRow.defs)

lemma window_features_unfold:
  "window_features cfg lib df subj sd (k, start) =
     bind_err (iloc_first (map time_sec (window_slice cfg sd start))) (\<lambda>w_start.
     bind_err (iloc_last (map time_sec (window_slice cfg sd start))) (\<lambda>w_end.
       map_err
         (\<lambda>chan.
            bind_err (extract_window_features lib
                        (channel_data (window_slice cfg sd start) chan) chan
                        (SAMPLING_RATE cfg)) (\<lambda>f.
              Inr (features.extend f (FeatureRow.fields subj k w_start w_end))))
         (kept_channels df (window_slice cfg sd start))))"
  by (simp add: window_features_def Let_def)

lemma window_features_rows:
  assumes "window_features cfg lib df subj sd (k, start) = Inr rows"
  shows "window_slice cfg sd start \<noteq> []"
    and "\<forall>r\<in>set rows. subject r = subj \<and> window_idx r = k \<and>
           window_start r = time_sec (hd (window_slice cfg sd start)) \<and>
           window_end r = time_sec (last (window_slice cfg sd start))"
    and "map channel rows = kept_channels df (window_slice cfg sd start)"
proof -
  let ?slice = "window_slice cfg sd start"
  from assms obtain a b where
    a: "iloc_first (map time_sec ?slice) = Inr a" and
    b: "iloc_last (map time_sec ?slice) = Inr b" and
    m: "map_err
         (\<lambda>chan.
            bind_err (extract_window_features lib (channel_data ?slice chan) chan
                        (SAMPLING_RATE cfg)) (\<lambda>f.
              Inr (features.extend f (FeatureRow.fields subj k a b))))
         (kept_channels df ?slice) = Inr rows"
    unfolding window_features_unfold bind_err_eq_Inr by blast
  let ?g = "\<lambda>chan.
            bind_err (extract_window_features lib (channel_data ?slice chan) chan
                        (SAMPLING_RATE cfg)) (\<lambda>f.
              Inr (features.extend f (FeatureRow.fields subj k a b)))"
  have ne: "map time_sec ?slice \<noteq> []" and a': "a = hd (map time_sec ?slice)"
    using iloc_first_Inr [OF a] by simp_all
  have b': "b = last (map time_sec ?slice)" using iloc_last_Inr [OF b] by simp
  show ne': "?slice \<noteq> []" using ne by simp
  have a'': "a = time_sec (hd ?slice)" using a' ne' by (simp add: hd_map)
  have b'': "b = time_sec (last ?slice)" using b' ne' by (simp add: last_map)
  have mm: "map ?g (kept_channels df ?slice) = map Inr rows"
    using m by (simp add: map_err_eq_Inr)
  have g: "?g c = Inr r \<Longrightarrow> subject r = subj \<and> window_idx r = k \<and>
           window_start r = a \<and> window_end r = b \<and> channel r = c" for c r
    by (auto simp: bind_err_eq_Inr dest: extract_channel)
  show "\<forall>r\<in>set rows. subject r = subj \<and> window_idx r = k \<and>
           window_start r = time_sec (hd ?slice) \<and> window_end r = time_sec (last ?slice)"
    using map_Inr_member [OF mm] g a'' b'' by blast
  show "map channel rows = kept_channels df ?slice"
    using mm by (rule map_Inr_inverse) (simp add: g)
qed

lemma window_features_short:
  assumes "window_slice cfg sd start \<noteq> []" and "length (window_slice cfg sd start) < 10"
  shows "window_features cfg lib df subj sd (k, start) = Inr []"
proof -
  have "kept_channels df (window_slice cfg sd start) = []"
    using assms(2) by (simp add: kept_channels_def channel_data_def filter_empty_conv)
  then show ?thesis using assms(1)
    by (simp add: window_features_unfold iloc_nonempty)
qed

lemma window_features_returns:
  assumes "window_slice cfg sd start \<noteq> []"
    and "\<forall>c\<in>set EEG_CHANNELS.
           welch_returns lib (channel_data (window_slice cfg sd start) c) (SAMPLING_RATE cfg)"
  shows "\<exists>rows. window_features cfg lib df subj sd (k, start) = Inr rows"
proof -
  let ?slice = "window_slice cfg sd start"
  have d: "channel_data ?slice c \<noteq> []" for c
    using assms(1) by (simp add: channel_data_def)
  have "\<forall>c\<in>set (kept_channels df ?slice).
          \<exists>f. extract_window_features lib (channel_data ?slice c) c (SAMPLING_RATE cfg) = Inr f"
    using extract_returns [OF d] assms(2) by (simp add: kept_channels_def)
  then have "\<forall>c\<in>set (kept_channels df ?slice).
          \<exists>r. bind_err (extract_window_features lib (channel_data ?slice c) c (SAMPLING_RATE cfg))
                 (\<lambda>f. Inr (features.extend f
                   (FeatureRow.fields subj k (hd (map time_sec ?slice)) (last (map time_sec ?slice)))))
               = Inr r"
    by (auto simp: bind_err_eq_Inr)
  then have "\<exists>rows. map_err (\<lambda>c. bind_err (extract_window_features lib (channel_data ?slice c) c (SAMPLING_RATE cfg))
                 (\<lambda>f. Inr (features.extend f
                   (FeatureRow.fields subj k (hd (map time_sec ?slice)) (last (map time_sec ?slice))))))
              (kept_channels df ?slice) = Inr rows"
    by (rule map_err_total)
  then show ?thesis using assms(1)
    by (simp add: window_features_unfold iloc_nonempty)
qed

text \<open>
  Claim C9. In a window whose slice holds at least one row, a channel with fewer
  than 10 values is left out without an error, and a channel with at least 10
  values (that is a column of the table) gives its row: the channels of the
  window's rows are exactly the channels of EEG_CHANNELS that are columns and
  have at least 10 values, in that order. A slice of fewer than 10 rows gives no
  row and no error, and the window returns its rows whenever the spectral
  estimate of every channel exists.
\<close>

theorem short_channel_skipped:
  assumes "window_slice cfg sd start \<noteq> []"
  shows "(length (window_slice cfg sd start) < 10 \<longrightarrow>
            window_features cfg lib df subj sd (k, start) = Inr []) \<and>
         (\<forall>rows. window_features cfg lib df subj sd (k, start) = Inr rows \<longrightarrow>
            map channel rows =
              filter (\<lambda>chan. chan \<in> set (df_columns df) \<and>
                        10 \<le> length (channel_data (window_slice cfg sd start) chan))
                EEG_CHANNELS) \<and>
         ((\<forall>c\<in>set EEG_CHANNELS.
              welch_returns lib (channel_data (window_slice cfg sd start) c) (SAMPLING_RATE cfg)) \<longrightarrow>
            (\<exists>rows. window_features cfg lib df subj sd (k, start) = Inr rows))"
  using window_features_short [OF assms] window_features_rows(3) window_features_returns [OF assms]
  unfolding kept_channels_def not_less by blast


lemma range_up_nth:
  "0 < step \<Longrightarrow> k < length (range_up i stop step) \<Longrightarrow>
   range_up i stop step ! k = i + int k * step \<and> i + int k * step < stop"
proof (induction i stop step arbitrary: k rule: range_up.induct)
  case (1 i stop step)
  show ?case
  proof (cases "i < stop")
    case False
    then have "range_up i stop step = []" by (simp add: range_up_Nil)
    with "1.prems" show ?thesis by simp
  next
    case True
    have unf: "range_up i stop step = i # range_up (i + step) stop step"
      using True "1.prems" by (subst range_up.simps) simp
    show ?thesis
    proof (cases k)
      case 0
      then show ?thesis using unf True by simp
    next
      case (Suc j)
      then have j: "j < length (range_up (i + step) stop step)"
        using "1.prems"(2) unf by simp
      have "range_up (i + step) stop step ! j = i + step + int j * step \<and>
            i + step + int j * step < stop"
        using "1.IH" [of j] True "1.prems"(1) j by simp
      then show ?thesis using unf Suc by (simp add: algebra_simps)
    qed
  qed
qed

lemma concat_member_nth:
  assumes "r \<in> set (concat yss)"
  shows "\<exists>i<length yss. r \<in> set (yss ! i)"
proof -
  from assms obtain ys where ys: "ys \<in> set yss" and r: "r \<in> set ys" by auto
  from ys obtain i where "i < length yss" "yss ! i = ys" by (metis in_set_conv_nth)
  with r show ?thesis by blast
qed

lemma window_slice_full:
  assumes "1 \<le> window_samples cfg" and "0 \<le> start"
    and "start + window_samples cfg \<le> int (length sd)"
  shows "window_slice cfg sd start = take (nat (window_samples cfg)) (drop (nat start) sd)"
    and "hd (window_slice cfg sd start) = sd ! nat start"
    and "last (window_slice cfg sd start) = sd ! (nat start + nat (window_samples cfg) - 1)"
    and "nat start + nat (window_samples cfg) \<le> length sd"
proof -
  let ?w = "window_samples cfg"
  have e: "window_slice cfg sd start = take (nat ?w) (drop (nat start) sd)"
    unfolding window_slice_def using py_slice_take_drop [of start "start + ?w" sd] assms
    by simp
  show "window_slice cfg sd start = take (nat ?w) (drop (nat start) sd)" by (rule e)
  show le: "nat start + nat ?w \<le> length sd" using assms by linarith
  have w: "0 < nat ?w" using assms(1) by simp
  have len: "length (take (nat ?w) (drop (nat start) sd)) = nat ?w" using le by simp
  have lt: "nat start < length sd" using w le by simp
  have "hd (take (nat ?w) (drop (nat start) sd)) = hd (drop (nat start) sd)"
    using w by (simp add: hd_take)
  also have "\<dots> = sd ! nat start" using lt by (simp add: hd_drop_conv_nth)
  finally show "hd (window_slice cfg sd start) = sd ! nat start" unfolding e .
  have ne: "take (nat ?w) (drop (nat start) sd) \<noteq> []" using w lt by simp
  have "last (take (nat ?w) (drop (nat start) sd))
        = take (nat ?w) (drop (nat start) sd) ! (length (take (nat ?w) (drop (nat start) sd)) - 1)"
    using ne by (rule last_conv_nth)
  also have "\<dots> = take (nat ?w) (drop (nat start) sd) ! (nat ?w - 1)"
    unfolding len ..
  also have "\<dots> = sd ! (nat start + (nat ?w - 1))" using w le by simp
  finally show "last (window_slice cfg sd start) = sd ! (nat start + nat ?w - 1)"
    unfolding e using w by simp
qed


lemma subject_row_time:
  assumes idx: "map sample_idx (subject_data df subj) = [0..<length (subject_data df subj)]"
    and tm: "\<forall>r\<in>set (df_rows df).
               time_sec r = fdiv (Fin (real (sample_idx r))) (Fin (of_int (SAMPLING_RATE cfg)))"
    and fs: "0 < SAMPLING_RATE cfg"
    and j: "j < length (subject_data df subj)"
  shows "time_sec (subject_data df subj ! j) = Fin (real j / of_int (SAMPLING_RATE cfg))"
proof -
  let ?sd = "subject_data df subj"
  have "?sd ! j \<in> set ?sd" using j by simp
  then have mem: "?sd ! j \<in> set (df_rows df)" by (simp add: subject_data_def)
  have "map sample_idx ?sd ! j = [0..<length ?sd] ! j" using idx by simp
  then have s: "sample_idx (?sd ! j) = j" using j by simp
  have "time_sec (?sd ! j) = fdiv (Fin (real j)) (Fin (of_int (SAMPLING_RATE cfg)))"
    using tm mem s by auto
  then show ?thesis using fs by simp
qed

lemma subject_features_positions:
  assumes ws: "1 \<le> window_samples cfg" and ov: "WINDOW_OVERLAP cfg < 1"
    and run: "subject_features cfg lib df subj = Inr rows" and r: "r \<in> set rows"
  shows "subject r = subj \<and>
         0 \<le> step_samples cfg \<and>
         nat (int (window_idx r) * step_samples cfg) + nat (window_samples cfg)
           \<le> length (subject_data df subj) \<and>
         window_start r =
           time_sec (subject_data df subj ! nat (int (window_idx r) * step_samples cfg)) \<and>
         window_end r =
           time_sec (subject_data df subj !
             (nat (int (window_idx r) * step_samples cfg) + nat (window_samples cfg) - 1))"
proof -
  let ?sd = "subject_data df subj"
  let ?n = "n_samples df subj"
  let ?w = "window_samples cfg"
  let ?st = "step_samples cfg"
  from run obtain starts rowss where
    st: "window_starts cfg ?n = Inr starts" and
    m: "map_err (window_features cfg lib df subj ?sd) (enumerate 0 starts) = Inr rowss" and
    rows: "rows = concat rowss"
    unfolding subject_features_def bind_err_eq_Inr by auto
  have "?st \<noteq> 0" using st by (auto simp: window_starts_def py_range_def)
  then have pos: "0 < ?st" using step_samples_nonneg [OF ws ov] by simp
  have starts: "starts = range_up 0 (?n - ?w + 1) ?st"
    using st pos by (simp add: window_starts_def py_range_def)
  have "r \<in> set (concat rowss)" using r rows by simp
  from concat_member_nth [OF this] obtain i where
    i: "i < length rowss" and ri: "r \<in> set (rowss ! i)" by (elim exE conjE)
  have len: "length rowss = length starts" using map_err_length [OF m] by simp
  have il: "i < length starts" using i len by simp
  have "window_features cfg lib df subj ?sd (enumerate 0 starts ! i) = Inr (rowss ! i)"
    using map_err_nth [OF m] il by simp
  then have wf: "window_features cfg lib df subj ?sd (i, starts ! i) = Inr (rowss ! i)"
    using il by (simp add: nth_enumerate_eq)
  have sv: "starts ! i = int i * ?st" and sb: "int i * ?st < ?n - ?w + 1"
    using range_up_nth [OF pos, of i 0 "?n - ?w + 1"] il starts by simp_all
  have s0: "0 \<le> int i * ?st" using pos by simp
  have sle: "int i * ?st + ?w \<le> int (length ?sd)" using sb by (simp add: n_samples_def)
  note full = window_slice_full [OF ws s0 sle]
  have fields: "subject r = subj \<and> window_idx r = i \<and>
        window_start r = time_sec (hd (window_slice cfg ?sd (int i * ?st))) \<and>
        window_end r = time_sec (last (window_slice cfg ?sd (int i * ?st)))"
    using window_features_rows(2) [OF wf [unfolded sv]] ri by blast
  show ?thesis using fields full(2,3,4) pos by simp
qed

lemma silver_row_subject:
  assumes run: "create_silver_features cfg lib df = Inr rows" and r: "r \<in> set rows"
  shows "\<exists>subj rs. subj \<in> set (map row_subject (df_rows df)) \<and>
           subject_features cfg lib df subj = Inr rs \<and> r \<in> set rs"
proof -
  let ?subjects = "unique (map row_subject (df_rows df))"
  from run have
    "bind_err (map_err (subject_features cfg lib df) ?subjects) (\<lambda>all_features.
       Inr (concat all_features)) = Inr rows"
    by (cases "config_error cfg") (simp_all add: create_silver_features_def Let_def)
  then obtain rss where
    m: "map_err (subject_features cfg lib df) ?subjects = Inr rss" and rows: "rows = concat rss"
    unfolding bind_err_eq_Inr by auto
  have "r \<in> set (concat rss)" using r rows by simp
  from concat_member_nth [OF this] obtain i where
    i: "i < length rss" and ri: "r \<in> set (rss ! i)" by (elim exE conjE)
  have len: "length rss = length ?subjects" using map_err_length [OF m] .
  have sf: "subject_features cfg lib df (?subjects ! i) = Inr (rss ! i)"
    using map_err_nth [OF m] i len by simp
  have "?subjects ! i \<in> set ?subjects" using i len by simp
  then have "?subjects ! i \<in> set (map row_subject (df_rows df))" by (simp add: set_unique)
  then show ?thesis using sf ri by blast
qed

lemma silver_row_positions:
  assumes ws: "1 \<le> window_samples cfg" and ov: "WINDOW_OVERLAP cfg < 1"
    and run: "create_silver_features cfg lib df = Inr rows" and r: "r \<in> set rows"
  shows "subject r \<in> set (map row_subject (df_rows df)) \<and>
         0 \<le> step_samples cfg \<and>
         nat (int (window_idx r) * step_samples cfg) + nat (window_samples cfg)
           \<le> length (subject_data df (subject r)) \<and>
         window_start r =
           time_sec (subject_data df (subject r) ! nat (int (window_idx r) * step_samples cfg)) \<and>
         window_end r =
           time_sec (subject_data df (subject r) !
             (nat (int (window_idx r) * step_samples cfg) + nat (window_samples cfg) - 1))"
proof -
  from silver_row_subject [OF run r] obtain subj rs where
    s: "subj \<in> set (map row_subject (df_rows df))" and
    sf: "subject_features cfg lib df subj = Inr rs" and rr: "r \<in> set rs" by blast
  have "subject r = subj" using subject_features_positions [OF ws ov sf rr] by simp
  then show ?thesis using subject_features_positions [OF ws ov sf rr] s by simp
qed

lemma silver_row_times:
  assumes ws: "1 \<le> window_samples cfg" and ov: "WINDOW_OVERLAP cfg < 1"
    and fs: "0 < SAMPLING_RATE cfg" and layout: "bronze_layout cfg df"
    and run: "create_silver_features cfg lib df = Inr rows" and r: "r \<in> set rows"
  shows "window_start r =
           Fin (of_int (int (window_idx r) * step_samples cfg) / of_int (SAMPLING_RATE cfg)) \<and>
         window_end r =
           Fin (of_int (int (window_idx r) * step_samples cfg + window_samples cfg - 1)
                  / of_int (SAMPLING_RATE cfg))"
proof -
  let ?sd = "subject_data df (subject r)"
  let ?a = "nat (int (window_idx r) * step_samples cfg)"
  let ?w = "window_samples cfg"
  note p = silver_row_positions [OF ws ov run r]
  have tm: "\<forall>r\<in>set (df_rows df).
      time_sec r = fdiv (Fin (real (sample_idx r))) (Fin (of_int (SAMPLING_RATE cfg)))"
    using layout by (simp add: bronze_layout_def)
  have idx: "map sample_idx ?sd = [0..<length ?sd]"
    using layout p unfolding bronze_layout_def by blast
  have j1: "?a < length ?sd" using p ws by linarith
  have j2: "?a + nat ?w - 1 < length ?sd" using p ws by linarith
  have s0: "0 \<le> int (window_idx r) * step_samples cfg" using p by simp
  have t1: "window_start r = Fin (real ?a / of_int (SAMPLING_RATE cfg))"
    using p subject_row_time [OF idx tm fs j1] by simp
  have t2: "window_end r = Fin (real (?a + nat ?w - 1) / of_int (SAMPLING_RATE cfg))"
    using p subject_row_time [OF idx tm fs j2] by simp
  have c1: "real ?a = of_int (int (window_idx r) * step_samples cfg)" using s0 by simp
  have "int (?a + nat ?w - 1) = int (window_idx r) * step_samples cfg + ?w - 1"
    using s0 ws by linarith
  then have c2: "real (?a + nat ?w - 1) = of_int (int (window_idx r) * step_samples cfg + ?w - 1)"
    by (metis of_int_of_nat_eq)
  show ?thesis using t1 t2 unfolding c1 c2 by simp
qed

text \<open>
  Claim C8. For a configuration with a window of at least one sample and an
  overlap below 1, every feature row takes \<open>window_start\<close> from row number
  \<open>window_idx * step_samples\<close> of its subject and \<open>window_end\<close> from the row
  \<open>window_samples - 1\<close> positions further: the distance in samples is the same
  for every row, and the rows of one window of one subject carry the same bounds
  whatever their channel. On a table laid out by the bronze layer, with a positive
  sampling rate, \<open>window_start\<close> is \<open>window_idx * step_samples / SAMPLING_RATE\<close>,
  \<open>window_end\<close> is \<open>(window_idx * step_samples + window_samples - 1) / SAMPLING_RATE\<close>,
  and their difference is \<open>(window_samples - 1) / SAMPLING_RATE\<close>.
\<close>

theorem window_bounds_constant:
  assumes ws: "1 \<le> window_samples cfg" and ov: "WINDOW_OVERLAP cfg < 1"
    and run: "create_silver_features cfg lib df = Inr rows"
  shows "(\<forall>r\<in>set rows.
            nat (int (window_idx r) * step_samples cfg) + nat (window_samples cfg)
              \<le> length (subject_data df (subject r)) \<and>
            window_start r =
              time_sec (subject_data df (subject r) !
                nat (int (window_idx r) * step_samples cfg)) \<and>
            window_end r =
              time_sec (subject_data df (subject r) !
                (nat (int (window_idx r) * step_samples cfg) + nat (window_samples cfg) - 1))) \<and>
         (\<forall>r\<in>set rows. \<forall>r'\<in>set rows.
            subject r = subject r' \<and> window_idx r = window_idx r' \<longrightarrow>
            window_start r = window_start r' \<and> window_end r = window_end r') \<and>
         (bronze_layout cfg df \<and> 0 < SAMPLING_RATE cfg \<longrightarrow>
            (\<forall>r\<in>set rows.
               window_start r =
                 Fin (of_int (int (window_idx r) * step_samples cfg)
                        / of_int (SAMPLING_RATE cfg)) \<and>
               window_end r =
                 Fin (of_int (int (window_idx r) * step_samples cfg + window_samples cfg - 1)
                        / of_int (SAMPLING_RATE cfg)) \<and>
               fsub (window_end r) (window_start r) =
                 Fin (of_int (window_samples cfg - 1) / of_int (SAMPLING_RATE cfg))))"
proof -
  note pos = silver_row_positions [OF ws ov run]
  have a: "\<forall>r\<in>set rows.
            nat (int (window_idx r) * step_samples cfg) + nat (window_samples cfg)
              \<le> length (subject_data df (subject r)) \<and>
            window_start r =
              time_sec (subject_data df (subject r) !
                nat (int (window_idx r) * step_samples cfg)) \<and>
            window_end r =
              time_sec (subject_data df (subject r) !
                (nat (int (window_idx r) * step_samples cfg) + nat (window_samples cfg) - 1))"
    using pos by blast
  have b: "window_start r = window_start r' \<and> window_end r = window_end r'"
    if "r \<in> set rows" "r' \<in> set rows" "subject r = subject r'" "window_idx r = window_idx r'"
    for r r'
    using pos [OF that(1)] pos [OF that(2)] that(3,4) by simp
  have c: "window_start r =
                 Fin (of_int (int (window_idx r) * step_samples cfg)
                        / of_int (SAMPLING_RATE cfg)) \<and>
               window_end r =
                 Fin (of_int (int (window_idx r) * step_samples cfg + window_samples cfg - 1)
                        / of_int (SAMPLING_RATE cfg)) \<and>
               fsub (window_end r) (window_start r) =
                 Fin (of_int (window_samples cfg - 1) / of_int (SAMPLING_RATE cfg))"
    if l: "bronze_layout cfg df" and fs: "0 < SAMPLING_RATE cfg" and r: "r \<in> set rows" for r
    using silver_row_times [OF ws ov fs l run r] fs
    by (simp add: fsub_def diff_divide_distrib [symmetric])
  show ?thesis using a b c by blast
qed

lemma small_ws: "window_samples small_config = 10"
  by (simp add: window_samples_def small_config_def f64_small py_int_def)

lemma small_one_minus_overlap: "one_minus_overlap small_config = 1 / 2"
  by (simp add: one_minus_overlap_def small_config_def f64_small)

lemma small_step: "step_samples small_config = 5"
  unfolding step_samples_def small_ws small_one_minus_overlap
  by (simp add: f64_small py_int_def)

lemma small_config_error: "config_error small_config = None"
  unfolding config_error_def small_ws small_one_minus_overlap
  by (simp add: small_config_def not_overflows f64_small)

lemma small_fs: "SAMPLING_RATE small_config = 10" "WINDOW_OVERLAP small_config = 1 / 2"
  by (simp_all add: small_config_def)

lemma small_subject_data: "subject_data small_df ''s00'' = df_rows small_df"
  by (simp add: subject_data_def small_df_def flat_recording_def filter_map o_def)

lemma small_length: "length (df_rows small_df) = 10"
  by (simp add: small_df_def flat_recording_def)

lemma remdups_replicate_Suc: "remdups (replicate (Suc n) x) = [x]"
  by (induction n) simp_all

lemma unique_replicate_Suc: "unique (replicate (Suc n) x) = [x]"
  unfolding unique_def rev_replicate remdups_replicate_Suc by simp

lemma small_subjects: "unique (map row_subject (df_rows small_df)) = [''s00'']"
proof -
  have "map row_subject (df_rows small_df) = replicate (Suc 9) ''s00''"
    by (simp add: small_df_def flat_recording_def o_def map_replicate_const)
  then show ?thesis by (simp only: unique_replicate_Suc)
qed

lemma small_layout: "bronze_layout small_config small_df"
proof -
  have s: "set (map row_subject (df_rows small_df)) = {''s00''}"
    using set_unique [of "map row_subject (df_rows small_df)"] small_subjects by simp
  have i: "map sample_idx (df_rows small_df) = [0..<10]"
    by (simp add: small_df_def flat_recording_def o_def)
  have t: "\<forall>r\<in>set (df_rows small_df).
      time_sec r = fdiv (Fin (real (sample_idx r))) (Fin (of_int (SAMPLING_RATE small_config)))"
    by (simp add: small_df_def flat_recording_def small_fs)
  show ?thesis
    unfolding bronze_layout_def using s i t small_subject_data small_length
    by (simp del: set_map)
qed

lemma failing_welch_returns: "welch_returns failing_fit_lib data fs"
  by (simp add: welch_returns_def failing_fit_lib_def)

lemma small_slice: "window_slice small_config (df_rows small_df) 0 = df_rows small_df"
  using window_slice_full(1) [of small_config 0 "df_rows small_df"]
  by (simp add: small_ws small_length)

lemma small_channel_data: "length (channel_data (df_rows small_df) c) = 10"
  by (simp add: channel_data_def small_length)

lemma small_kept:
  "filter (\<lambda>chan. chan \<in> set (df_columns small_df) \<and>
             10 \<le> length (channel_data (df_rows small_df) chan)) EEG_CHANNELS
   = [''Fp1'', ''Fp2'']"
  unfolding small_channel_data by (simp add: small_df_def EEG_CHANNELS_def)

lemma small_kept_channels: "kept_channels small_df (df_rows small_df) = [''Fp1'', ''Fp2'']"
  unfolding kept_channels_def not_less by (rule small_kept)

lemma nine_samples:
  "window_samples (small_config\<lparr>SAMPLING_RATE := 9\<rparr>) = 9"
  by (simp add: window_samples_def small_config_def f64_small py_int_def)

lemma nine_slice:
  "window_slice (small_config\<lparr>SAMPLING_RATE := 9\<rparr>) (df_rows small_df) 0
     = take 9 (df_rows small_df)"
  using window_slice_full(1) [of "small_config\<lparr>SAMPLING_RATE := 9\<rparr>" 0 "df_rows small_df"]
  by (simp add: nine_samples small_length)

lemma small_nonempty: "df_rows small_df \<noteq> []"
  using small_length by auto

theorem short_channel_skipped_witness:
  "window_slice small_config (df_rows small_df) 0 \<noteq> [] \<and>
   (\<exists>rows. window_features small_config failing_fit_lib small_df ''s00'' (df_rows small_df) (0, 0)
             = Inr rows \<and> map channel rows = [''Fp1'', ''Fp2'']) \<and>
   length (window_slice (small_config\<lparr>SAMPLING_RATE := 9\<rparr>) (df_rows small_df) 0) = 9 \<and>
   window_features (small_config\<lparr>SAMPLING_RATE := 9\<rparr>) failing_fit_lib small_df ''s00''
     (df_rows small_df) (0, 0) = Inr []"
proof -
  have a: "window_slice small_config (df_rows small_df) 0 \<noteq> []"
    by (simp add: small_slice small_nonempty)
  have b: "window_slice (small_config\<lparr>SAMPLING_RATE := 9\<rparr>) (df_rows small_df) 0 \<noteq> []"
    using small_length by (auto simp: nine_slice)
  have l: "length (window_slice (small_config\<lparr>SAMPLING_RATE := 9\<rparr>) (df_rows small_df) 0) = 9"
    by (simp add: nine_slice small_length)
  have "\<exists>rows. window_features small_config failing_fit_lib small_df ''s00'' (df_rows small_df) (0, 0)
             = Inr rows \<and> map channel rows = [''Fp1'', ''Fp2'']"
    using short_channel_skipped [OF a, of failing_fit_lib small_df "''s00''" 0]
      failing_welch_returns small_kept
    by (simp add: small_slice) blast
  moreover have "window_features (small_config\<lparr>SAMPLING_RATE := 9\<rparr>) failing_fit_lib small_df
      ''s00'' (df_rows small_df) (0, 0) = Inr []"
    using short_channel_skipped [OF b, of failing_fit_lib small_df "''s00''" 0] l by simp
  ultimately show ?thesis using a l by blast
qed

lemma small_window:
  "\<exists>rows. window_features small_config failing_fit_lib small_df ''s00'' (df_rows small_df) (0, 0)
             = Inr rows \<and> rows \<noteq> []"
proof -
  have ne: "window_slice small_config (df_rows small_df) 0 \<noteq> []"
    by (simp add: small_slice small_nonempty)
  from window_features_returns [OF ne] obtain rows where
    r: "window_features small_config failing_fit_lib small_df ''s00'' (df_rows small_df) (0, 0)
          = Inr rows"
    using failing_welch_returns by blast
  have "map channel rows = [''Fp1'', ''Fp2'']"
    using window_features_rows(3) [OF r] by (simp add: small_slice small_kept_channels)
  then have "rows \<noteq> []" by auto
  then show ?thesis using r by blast
qed

lemma small_starts: "window_starts small_config 10 = Inr [0]"
  by (simp add: window_starts_def py_range_def small_ws small_step range_up.simps)

lemma small_run:
  "\<exists>rows. create_silver_features small_config failing_fit_lib small_df = Inr rows \<and> rows \<noteq> []"
proof -
  from small_window obtain rows where
    r: "window_features small_config failing_fit_lib small_df ''s00'' (df_rows small_df) (0, 0)
          = Inr rows" and ne: "rows \<noteq> []" by blast
  have n: "n_samples small_df ''s00'' = 10"
    by (simp add: n_samples_def small_subject_data small_length)
  have "subject_features small_config failing_fit_lib small_df ''s00'' = Inr rows"
    by (simp add: subject_features_def n small_starts small_subject_data enumerate_eq_zip
        map_err_Cons r)
  then have "create_silver_features small_config failing_fit_lib small_df = Inr rows"
    by (simp add: create_silver_features_def small_config_error small_subjects map_err_Cons)
  then show ?thesis using ne by blast
qed

theorem window_bounds_constant_witness:
  "1 \<le> window_samples small_config \<and> WINDOW_OVERLAP small_config < 1 \<and>
   0 < SAMPLING_RATE small_config \<and> bronze_layout small_config small_df \<and>
   (\<exists>rows r. create_silver_features small_config failing_fit_lib small_df = Inr rows \<and>
      r \<in> set rows \<and>
      fsub (window_end r) (window_start r) = Fin (9 / 10))"
proof -
  from small_run obtain rows where
    r: "create_silver_features small_config failing_fit_lib small_df = Inr rows"
    and ne: "rows \<noteq> []" by blast
  from ne obtain r0 where r0: "r0 \<in> set rows" by (cases rows) auto
  have c: "1 \<le> window_samples small_config" "WINDOW_OVERLAP small_config < 1"
    "0 < SAMPLING_RATE small_config"
    by (simp_all add: small_ws small_fs)
  have "fsub (window_end r0) (window_start r0) =
          Fin (of_int (window_samples small_config - 1) / of_int (SAMPLING_RATE small_config))"
    using window_bounds_constant [OF c(1) c(2) r] small_layout c(3) r0 by blast
  moreover have "Fin (of_int (window_samples small_config - 1) / of_int (SAMPLING_RATE small_config))
      = Fin (9 / 10)"
    by (simp add: small_ws small_fs)
  ultimately have "fsub (window_end r0) (window_start r0) = Fin (9 / 10)"
    by simp
  then show ?thesis using c small_layout r r0 by blast
qed

section \<open>The windows of a subject\<close>


lemma range_up_eq_map:
  assumes "0 < step"
  shows "range_up 0 stop step = map (\<lambda>k. int k * step) [0..<length (range_up 0 stop step)]"
proof (rule nth_equalityI)
  show "length (range_up 0 stop step)
        = length (map (\<lambda>k. int k * step) [0..<length (range_up 0 stop step)])" by simp
next
  fix i assume "i < length (range_up 0 stop step)"
  then show "range_up 0 stop step ! i
        = map (\<lambda>k. int k * step) [0..<length (range_up 0 stop step)] ! i"
    using range_up_nth [OF assms, of i 0 stop] by simp
qed

lemma default_starts_length:
  "length (range_up 0 (N - 499) 250) = spec_window_count 500 250 N"
proof -
  have "int (length (range_up 0 (N - 499) 250)) =
        (if 500 \<le> N then (N - 500) div 250 + 1 else 0)"
    by (simp add: range_up_length)
  then show ?thesis by (simp add: spec_window_count_def split: if_splits)
qed

lemma default_starts:
  "window_starts default_config N
     = Inr (map (\<lambda>k. 250 * int k) [0..<spec_window_count 500 250 N])"
proof -
  have "range_up 0 (N - 499) 250
        = map (\<lambda>k. int k * 250) [0..<length (range_up 0 (N - 499) 250)]"
    by (rule range_up_eq_map) simp
  then have "range_up 0 (N - 499) 250
        = map (\<lambda>k. 250 * int k) [0..<spec_window_count 500 250 N]"
    by (simp add: default_starts_length mult.commute)
  then show ?thesis by (simp add: window_starts_default)
qed

lemma default_window_in_range:
  assumes "k < spec_window_count 500 250 N"
  shows "250 * int k + 500 \<le> N"
proof -
  have "k < length (range_up 0 (N - 499) 250)" using assms by (simp add: default_starts_length)
  then have "0 + int k * 250 < N - 499"
    using range_up_nth [of 250 k 0 "N - 499"] by simp
  then show ?thesis by simp
qed

lemma default_slice_length:
  assumes "k < spec_window_count 500 250 (n_samples df subj)"
  shows "length (window_slice default_config (subject_data df subj) (250 * int k)) = 500"
proof -
  have le: "250 * int k + 500 \<le> int (length (subject_data df subj))"
    using default_window_in_range [OF assms] by (simp add: n_samples_def)
  have "window_slice default_config (subject_data df subj) (250 * int k)
        = take (nat (window_samples default_config)) (drop (nat (250 * int k)) (subject_data df subj))"
    using le by (intro window_slice_full(1)) (simp_all add: ws_default)
  moreover have "nat (250 * int k) + nat (window_samples default_config)
        \<le> length (subject_data df subj)"
    using le by (intro window_slice_full(4)) (simp_all add: ws_default)
  ultimately show ?thesis by (simp add: ws_default)
qed

lemma default_kept_channels:
  assumes "k < spec_window_count 500 250 (n_samples df subj)"
  shows "kept_channels df (window_slice default_config (subject_data df subj) (250 * int k))
         = filter (\<lambda>c. c \<in> set (df_columns df)) EEG_CHANNELS"
  by (simp add: kept_channels_def channel_data_def default_slice_length [OF assms])

lemma map_const_replicate: "\<forall>x\<in>set xs. f x = c \<Longrightarrow> map f xs = replicate (length xs) c"
  by (induction xs) simp_all

lemma default_subject_windows:
  assumes run: "subject_features default_config lib df subj = Inr rows"
  shows "\<exists>wrows. length wrows = spec_window_count 500 250 (n_samples df subj) \<and>
           rows = concat wrows \<and>
           (\<forall>k<spec_window_count 500 250 (n_samples df subj).
              map channel (wrows ! k) = filter (\<lambda>c. c \<in> set (df_columns df)) EEG_CHANNELS \<and>
              (\<forall>r\<in>set (wrows ! k). window_idx r = k \<and> subject r = subj))"
proof -
  let ?K = "spec_window_count 500 250 (n_samples df subj)"
  let ?sd = "subject_data df subj"
  let ?starts = "map (\<lambda>k. 250 * int k) [0..<?K]"
  from run obtain wrows where
    m: "map_err (window_features default_config lib df subj ?sd) (enumerate 0 ?starts) = Inr wrows"
    and rows: "rows = concat wrows"
    unfolding subject_features_def default_starts bind_err_Inr bind_err_eq_Inr by auto
  have len: "length wrows = ?K" using map_err_length [OF m] by simp
  have win: "map channel (wrows ! k) = filter (\<lambda>c. c \<in> set (df_columns df)) EEG_CHANNELS \<and>
              (\<forall>r\<in>set (wrows ! k). window_idx r = k \<and> subject r = subj)" if k: "k < ?K" for k
  proof -
    have "window_features default_config lib df subj ?sd (enumerate 0 ?starts ! k)
          = Inr (wrows ! k)"
      using map_err_nth [OF m] k by simp
    then have wf: "window_features default_config lib df subj ?sd (k, 250 * int k)
          = Inr (wrows ! k)"
      using k by (simp add: nth_enumerate_eq)
    show ?thesis
      using window_features_rows(2,3) [OF wf] default_kept_channels [OF k] by simp
  qed
  show ?thesis using len rows win by blast
qed

lemma concat_windows:
  assumes "length wrows = K"
    and "\<forall>k<K. map f (wrows ! k) = g k"
  shows "map f (concat wrows) = concat (map g [0..<K])"
proof -
  have "map (map f) wrows = map g [0..<K]"
  proof (rule nth_equalityI)
    show "length (map (map f) wrows) = length (map g [0..<K])" using assms(1) by simp
  next
    fix i assume "i < length (map (map f) wrows)"
    then show "map (map f) wrows ! i = map g [0..<K] ! i" using assms by simp
  qed
  then show ?thesis by (simp add: map_concat)
qed

lemma default_subject_rows:
  assumes run: "subject_features default_config lib df subj = Inr rows"
  shows "map window_idx rows =
           concat (map (\<lambda>k. replicate
                     (length (filter (\<lambda>c. c \<in> set (df_columns df)) EEG_CHANNELS)) k)
                   [0..<spec_window_count 500 250 (n_samples df subj)])"
    and "map channel rows =
           concat (replicate (spec_window_count 500 250 (n_samples df subj))
                     (filter (\<lambda>c. c \<in> set (df_columns df)) EEG_CHANNELS))"
    and "\<forall>r\<in>set rows. subject r = subj"
proof -
  let ?K = "spec_window_count 500 250 (n_samples df subj)"
  let ?chans = "filter (\<lambda>c. c \<in> set (df_columns df)) EEG_CHANNELS"
  from default_subject_windows [OF run] obtain wrows where
    len: "length wrows = ?K" and rows: "rows = concat wrows" and
    win: "\<forall>k<?K. map channel (wrows ! k) = ?chans \<and>
              (\<forall>r\<in>set (wrows ! k). window_idx r = k \<and> subject r = subj)"
    by blast
  have idx: "\<forall>k<?K. map window_idx (wrows ! k) = replicate (length ?chans) k"
  proof (intro allI impI)
    fix k assume k: "k < ?K"
    have "length (wrows ! k) = length ?chans"
      using win k by (metis length_map)
    moreover have "map window_idx (wrows ! k) = replicate (length (wrows ! k)) k"
      using win k by (intro map_const_replicate) simp
    ultimately show "map window_idx (wrows ! k) = replicate (length ?chans) k" by simp
  qed
  show "map window_idx rows = concat (map (\<lambda>k. replicate (length ?chans) k) [0..<?K])"
    unfolding rows using len idx by (rule concat_windows)
  have ch: "\<forall>k<?K. map channel (wrows ! k) = ?chans" using win by simp
  have "map channel (concat wrows) = concat (map (\<lambda>k. ?chans) [0..<?K])"
    using len ch by (rule concat_windows)
  then show "map channel rows = concat (replicate ?K ?chans)"
    unfolding rows by (simp add: map_replicate_const)
  show "\<forall>r\<in>set rows. subject r = subj"
  proof
    fix r assume "r \<in> set rows"
    then have "r \<in> set (concat wrows)" using rows by simp
    from concat_member_nth [OF this] obtain i where
      "i < length wrows" "r \<in> set (wrows ! i)" by (elim exE conjE)
    then show "subject r = subj" using win len by simp
  qed
qed

lemma default_subject_returns:
  assumes lib: "\<forall>data. data \<noteq> [] \<longrightarrow> welch_returns lib data 250"
  shows "\<exists>rows. subject_features default_config lib df subj = Inr rows"
proof -
  let ?K = "spec_window_count 500 250 (n_samples df subj)"
  let ?sd = "subject_data df subj"
  let ?starts = "map (\<lambda>k. 250 * int k) [0..<?K]"
  have "\<forall>w\<in>set (enumerate 0 ?starts).
          \<exists>rs. window_features default_config lib df subj ?sd w = Inr rs"
  proof
    fix w assume "w \<in> set (enumerate 0 ?starts)"
    then obtain k where k: "k < ?K" and w: "w = (k, 250 * int k)"
      by (auto simp: in_set_conv_nth nth_enumerate_eq)
    let ?slice = "window_slice default_config ?sd (250 * int k)"
    have ne: "?slice \<noteq> []" using default_slice_length [OF k] by auto
    have "\<forall>c\<in>set EEG_CHANNELS.
            welch_returns lib (channel_data ?slice c) (SAMPLING_RATE default_config)"
      using lib ne by (simp add: channel_data_def default_config_def)
    from window_features_returns [OF ne this]
    show "\<exists>rs. window_features default_config lib df subj ?sd w = Inr rs"
      unfolding w .
  qed
  then obtain wrows where
    "map_err (window_features default_config lib df subj ?sd) (enumerate 0 ?starts) = Inr wrows"
    using map_err_total by blast
  then have "subject_features default_config lib df subj = Inr (concat wrows)"
    by (simp add: subject_features_def default_starts)
  then show ?thesis by blast
qed

text \<open>
  Claim C1. With the constants of prep.py (250 Hz, 2.0 s, overlap 0.5) a window
  has 500 samples and the step is 250. For a subject with \<open>N\<close> rows the loop runs
  over the starts \<open>0, 250, ..., 250 * (K - 1)\<close>, where \<open>K\<close> is the window count of
  the specification: \<open>(N - 500) div 250 + 1\<close> when \<open>N \<ge> 500\<close> and 0 when \<open>N < 500\<close>.
  The rows that the loop appends are, window after window, one row for each
  channel of EEG_CHANNELS that is a column of the table, with \<open>window_idx\<close> running
  through \<open>0, ..., K - 1\<close>; for \<open>N < 500\<close> there is no row and nothing is raised.
  The loop returns whenever the spectral estimate of every non-empty segment
  exists.
\<close>

theorem window_count_default_config:
  "window_samples default_config = 500 \<and> step_samples default_config = 250 \<and>
   window_starts default_config (n_samples df subj)
     = Inr (map (\<lambda>k. 250 * int k) [0..<spec_window_count 500 250 (n_samples df subj)]) \<and>
   (n_samples df subj < 500 \<longrightarrow> subject_features default_config lib df subj = Inr []) \<and>
   (\<forall>rows. subject_features default_config lib df subj = Inr rows \<longrightarrow>
      map window_idx rows =
        concat (map (\<lambda>k. replicate
                  (length (filter (\<lambda>c. c \<in> set (df_columns df)) EEG_CHANNELS)) k)
                [0..<spec_window_count 500 250 (n_samples df subj)]) \<and>
      map channel rows =
        concat (replicate (spec_window_count 500 250 (n_samples df subj))
                  (filter (\<lambda>c. c \<in> set (df_columns df)) EEG_CHANNELS)) \<and>
      (\<forall>r\<in>set rows. subject r = subj)) \<and>
   ((\<forall>data. data \<noteq> [] \<longrightarrow> welch_returns lib data 250) \<longrightarrow>
      (\<exists>rows. subject_features default_config lib df subj = Inr rows))"
  using ws_default step_default default_starts [of "n_samples df subj"]
    subject_features_short [of df subj lib] default_subject_rows [of lib df subj]
    default_subject_returns [of lib df subj]
  by blast


lemma count_1250: "spec_window_count 500 250 1250 = 4"
  by (simp add: spec_window_count_def)

lemma upt_4: "[0..<4] = [0, 1, 2, 3]"
  by code_simp

theorem window_count_default_config_witness:
  "n_samples \<lparr>df_columns = [''Fp1''], df_rows = flat_recording 250 ''s00'' [''Fp1''] 100\<rparr> ''s00''
     < 500 \<and>
   subject_features default_config failing_fit_lib
     \<lparr>df_columns = [''Fp1''], df_rows = flat_recording 250 ''s00'' [''Fp1''] 100\<rparr> ''s00'' = Inr [] \<and>
   spec_window_count 500 250
     (n_samples \<lparr>df_columns = [''Fp1''], df_rows = flat_recording 250 ''s00'' [''Fp1''] 1250\<rparr>
        ''s00'') = 4 \<and>
   window_starts default_config
     (n_samples \<lparr>df_columns = [''Fp1''], df_rows = flat_recording 250 ''s00'' [''Fp1''] 1250\<rparr>
        ''s00'') = Inr [0, 250, 500, 750] \<and>
   (\<exists>rows. subject_features default_config failing_fit_lib
             \<lparr>df_columns = [''Fp1''], df_rows = flat_recording 250 ''s00'' [''Fp1''] 1250\<rparr> ''s00''
             = Inr rows \<and>
           map window_idx rows = [0, 1, 2, 3] \<and>
           map channel rows = [''Fp1'', ''Fp1'', ''Fp1'', ''Fp1''])"
proof -
  let ?A = "\<lparr>df_columns = [''Fp1''], df_rows = flat_recording 250 ''s00'' [''Fp1''] 100\<rparr>"
  let ?B = "\<lparr>df_columns = [''Fp1''], df_rows = flat_recording 250 ''s00'' [''Fp1''] 1250\<rparr>"
  note a = window_count_default_config [of ?A "''s00''" failing_fit_lib]
  note b = window_count_default_config [of ?B "''s00''" failing_fit_lib]
  have na: "n_samples ?A ''s00'' = 100" and nb: "n_samples ?B ''s00'' = 1250"
    by (simp_all add: n_samples_flat)
  have short: "subject_features default_config failing_fit_lib ?A ''s00'' = Inr []"
    using a na by simp
  have starts: "window_starts default_config (n_samples ?B ''s00'') = Inr [0, 250, 500, 750]"
    using b unfolding nb count_1250 upt_4 by simp
  have chans: "filter (\<lambda>c. c \<in> set (df_columns ?B)) EEG_CHANNELS = [''Fp1'']"
    by (simp add: EEG_CHANNELS_def)
  from b obtain rows where
    r: "subject_features default_config failing_fit_lib ?B ''s00'' = Inr rows"
    using failing_welch_returns by blast
  have idx: "map window_idx rows =
        concat (map (\<lambda>k. replicate
                  (length (filter (\<lambda>c. c \<in> set (df_columns ?B)) EEG_CHANNELS)) k)
                [0..<spec_window_count 500 250 (n_samples ?B ''s00'')])"
    and ch: "map channel rows =
        concat (replicate (spec_window_count 500 250 (n_samples ?B ''s00''))
                  (filter (\<lambda>c. c \<in> set (df_columns ?B)) EEG_CHANNELS))"
    using b r by blast+
  have i: "map window_idx rows = [0, 1, 2, 3]"
    unfolding idx chans nb count_1250 upt_4 by simp
  have c: "map channel rows = [''Fp1'', ''Fp1'', ''Fp1'', ''Fp1'']"
    unfolding ch chans nb count_1250 by (simp add: numeral_eq_Suc)
  show ?thesis using na nb short starts r i c count_1250 by auto
qed

end
